theory Spec2Isabelle
  imports Complex_Main "HOL-Library.Sublist"
begin

section \<open>Website Time Tracker: the service worker's session tracker\<close>

text \<open>
  The development embeds the session tracker of the extension's service worker
  (\<^verbatim>\<open>background.js\<close>, the version with incognito handling and the durable
  pending-session marker). JavaScript's \<^verbatim>\<open>null\<close>/\<^verbatim>\<open>undefined\<close> are \<^const>\<open>None\<close>.

  Numbers. \<^verbatim>\<open>roundMs\<close> is embedded twice. \<open>roundMs\<close> is the function on JavaScript
  numbers, that is on IEEE 754 doubles with round-to-nearest-even. \<open>roundMs_int\<close> is the
  same function on integers; the two agree on the safe integers (lemma
  \<open>roundMs_safe\<close> below). The tracker itself is embedded over \<^typ>\<open>int\<close>: its
  timestamps are readings of \<^verbatim>\<open>Date.now()\<close>, its granularity is the integer the settings
  dialog stores (\<^verbatim>\<open>Math.max(1000, parseInt(...) || 1000)\<close>), and its totals are sums of
  such differences, all safe integers, on which the double operations \<^verbatim>\<open>-\<close>, \<^verbatim>\<open>+\<close> and
  \<^verbatim>\<open>roundMs\<close> are exact. A stored granularity that is not an integer is outside the
  tracker's embedding.
\<close>

subsection \<open>JavaScript numbers\<close>

text \<open>
  A finite double is the rational it denotes; \<^verbatim>\<open>-0\<close> is identified with \<^verbatim>\<open>0\<close> (they are
  equal under \<^verbatim>\<open>==\<close>, and \<^verbatim>\<open>roundMs\<close> never divides by zero). \<open>round_to_double\<close> maps a
  rational to the nearest double, ties to the even significand, with gradual underflow
  below \<open>2^-1022\<close> and overflow to infinity from \<open>2^1024 - 2^970\<close> on. \<open>exponent a\<close> is
  \<open>\<lfloor>log\<^sub>2 a\<rfloor>\<close> kept within \<open>-1022 .. 1024\<close>.
\<close>

datatype number = Num rat | NaN | PosInf | NegInf

definition pow2 :: "int \<Rightarrow> rat" where
  "pow2 e = (if 0 \<le> e then 2 ^ nat e else 1 / 2 ^ nat (- e))"

fun exp_up :: "nat \<Rightarrow> rat \<Rightarrow> int" where
  "exp_up 0 a = 0"
| "exp_up (Suc n) a = (if 2 \<le> a then exp_up n (a / 2) + 1 else 0)"

fun exp_down :: "nat \<Rightarrow> rat \<Rightarrow> int" where
  "exp_down 0 a = 0"
| "exp_down (Suc n) a = (if a < 1 then exp_down n (a * 2) - 1 else 0)"

definition exponent :: "rat \<Rightarrow> int" where
  "exponent a = (if 1 \<le> a then exp_up 1024 a else exp_down 1022 a)"

definition round_half_even :: "rat \<Rightarrow> int" where
  "round_half_even x =
     (let f = \<lfloor>x\<rfloor>; r = x - of_int f
      in if r < 1 / 2 then f else if 1 / 2 < r then f + 1 else if even f then f else f + 1)"

definition round_to_double :: "rat \<Rightarrow> number" where
  "round_to_double q =
     (if q = 0 then Num 0
      else
        let a = \<bar>q\<bar>;
            u = pow2 (exponent a - 52);
            r = of_int (round_half_even (a / u)) * u
        in if pow2 1024 \<le> r then (if 0 < q then PosInf else NegInf)
           else Num (if 0 < q then r else - r))"

definition falsy :: "number \<Rightarrow> bool" where
  "falsy g = (g = Num 0 \<or> g = NaN)"

definition le_zero :: "number \<Rightarrow> bool" where
  "le_zero g = (case g of Num b \<Rightarrow> b \<le> 0 | NegInf \<Rightarrow> True | _ \<Rightarrow> False)"

fun js_divide :: "number \<Rightarrow> number \<Rightarrow> number" where
  "js_divide NaN y = NaN"
| "js_divide x NaN = NaN"
| "js_divide (Num a) (Num b) =
     (if b = 0 then (if a = 0 then NaN else if 0 < a then PosInf else NegInf)
      else round_to_double (a / b))"
| "js_divide (Num a) y = Num 0"
| "js_divide PosInf (Num b) = (if 0 \<le> b then PosInf else NegInf)"
| "js_divide NegInf (Num b) = (if 0 \<le> b then NegInf else PosInf)"
| "js_divide x y = NaN"

fun js_floor :: "number \<Rightarrow> number" where
  "js_floor (Num a) = Num (of_int \<lfloor>a\<rfloor>)"
| "js_floor x = x"

fun js_times :: "number \<Rightarrow> number \<Rightarrow> number" where
  "js_times NaN y = NaN"
| "js_times x NaN = NaN"
| "js_times (Num a) (Num b) = round_to_double (a * b)"
| "js_times (Num a) PosInf = (if a = 0 then NaN else if 0 < a then PosInf else NegInf)"
| "js_times (Num a) NegInf = (if a = 0 then NaN else if 0 < a then NegInf else PosInf)"
| "js_times PosInf (Num b) = (if b = 0 then NaN else if 0 < b then PosInf else NegInf)"
| "js_times NegInf (Num b) = (if b = 0 then NaN else if 0 < b then NegInf else PosInf)"
| "js_times PosInf PosInf = PosInf"
| "js_times NegInf NegInf = PosInf"
| "js_times x y = NegInf"

text \<open>
  \<^verbatim>\<open>function roundMs(ms, granularityMs) {
    if (!granularityMs || granularityMs <= 0) return ms;
    return Math.floor(ms / granularityMs) * granularityMs;
  }\<close>
\<close>

definition roundMs :: "number \<Rightarrow> number \<Rightarrow> number" where
  "roundMs ms granularityMs =
     (if falsy granularityMs \<or> le_zero granularityMs then ms
      else js_times (js_floor (js_divide ms granularityMs)) granularityMs)"

text \<open>The same on integers, with the real quotient and the floor of the reals.\<close>

definition roundMs_int :: "int \<Rightarrow> int \<Rightarrow> int" where
  "roundMs_int ms granularityMs =
     (if granularityMs = 0 \<or> granularityMs \<le> 0 then ms
      else \<lfloor>real_of_int ms / real_of_int granularityMs\<rfloor> * granularityMs)"

text \<open>The double written \<^verbatim>\<open>0.3\<close>.\<close>

definition three_tenths :: rat where
  "three_tenths = 5404319552844595 / 18014398509481984"

subsection \<open>Stored values and settings\<close>

text \<open>
  \<^verbatim>\<open>chrome.storage.local\<close> holds JSON values, so a stored \<^verbatim>\<open>settings\<close> entry can have
  any JSON shape. \<^verbatim>\<open>getSettings\<close> reads three fields of \<^verbatim>\<open>s\<close>. Reading a field of
  \<^verbatim>\<open>null\<close> throws a \<^verbatim>\<open>TypeError\<close>; an object gives its own property of that name or
  \<^verbatim>\<open>undefined\<close> (\<^const>\<open>None\<close>); an array, a string, a number or a boolean has no
  property of any of the three names, own or inherited, and gives \<^verbatim>\<open>undefined\<close>.
\<close>

datatype jsval =
    JNull
  | JBool bool
  | JNum int
  | JStr string
  | JArr "jsval list"
  | JObj "(string \<times> jsval) list"

datatype error = TypeError

datatype settings_field = ExcludeDomains | TimeGranularityMs | KeepIncognitoData

fun field_name :: "settings_field \<Rightarrow> string" where
  "field_name ExcludeDomains = ''excludeDomains''"
| "field_name TimeGranularityMs = ''timeGranularityMs''"
| "field_name KeepIncognitoData = ''keepIncognitoData''"

fun truthy :: "jsval \<Rightarrow> bool" where
  "truthy JNull = False"
| "truthy (JBool b) = b"
| "truthy (JNum n) = (n \<noteq> 0)"
| "truthy (JStr s) = (s \<noteq> [])"
| "truthy (JArr xs) = True"
| "truthy (JObj kvs) = True"

fun property :: "jsval \<Rightarrow> settings_field \<Rightarrow> error + jsval option" where
  "property JNull f = Inl TypeError"
| "property (JObj kvs) f = Inr (map_of kvs (field_name f))"
| "property v f = Inr None"

definition DEFAULT_GRANULARITY_MS :: int where
  "DEFAULT_GRANULARITY_MS = 1000"

text \<open>
  \<^verbatim>\<open>async function getSettings() {
    const raw = await chrome.storage.local.get({ settings: {} });
    const s = raw.settings || {};
    return {
      excludeDomains: Array.isArray(s.excludeDomains) ? s.excludeDomains : [],
      timeGranularityMs: typeof s.timeGranularityMs === 'number' ? s.timeGranularityMs : DEFAULT_GRANULARITY_MS,
      keepIncognitoData: s.keepIncognitoData === true
    };
  }\<close>
  The argument is the stored \<^verbatim>\<open>settings\<close> entry, \<^const>\<open>None\<close> when the key is absent
  (the \<^verbatim>\<open>get\<close> then supplies the default \<^verbatim>\<open>{}\<close>). \<open>settings_s\<close> is the local \<^verbatim>\<open>s\<close>;
  \<open>getSettings_js\<close> is the outcome of the call: the object returned, or the error thrown.
\<close>

definition settings_s :: "jsval option \<Rightarrow> jsval" where
  "settings_s stored =
     (let raw_settings = (case stored of None \<Rightarrow> JObj [] | Some v \<Rightarrow> v)
      in if truthy raw_settings then raw_settings else JObj [])"

definition getSettings_js :: "jsval option \<Rightarrow> error + jsval" where
  "getSettings_js stored =
     (let s = settings_s stored in
      case property s ExcludeDomains of
        Inl e \<Rightarrow> Inl e
      | Inr a \<Rightarrow>
          (case property s TimeGranularityMs of
             Inl e \<Rightarrow> Inl e
           | Inr b \<Rightarrow>
               (case property s KeepIncognitoData of
                  Inl e \<Rightarrow> Inl e
                | Inr c \<Rightarrow>
                    Inr (JObj
                      [(''excludeDomains'',
                          (case a of Some (JArr xs) \<Rightarrow> JArr xs | _ \<Rightarrow> JArr [])),
                       (''timeGranularityMs'',
                          (case b of Some (JNum n) \<Rightarrow> JNum n
                           | _ \<Rightarrow> JNum DEFAULT_GRANULARITY_MS)),
                       (''keepIncognitoData'', JBool (c = Some (JBool True)))]))))"

text \<open>
  The tracker reads \<^verbatim>\<open>settings.excludeDomains\<close>, \<^verbatim>\<open>settings.timeGranularityMs\<close> and
  \<^verbatim>\<open>settings.keepIncognitoData\<close> off the returned object; \<open>getSettings\<close> is that object
  as a typed record.
\<close>

record settings =
  excludeDomains :: "jsval list"
  timeGranularityMs :: int
  keepIncognitoData :: bool

definition returned_field :: "error + jsval \<Rightarrow> string \<Rightarrow> jsval option" where
  "returned_field r k = (case r of Inr (JObj kvs) \<Rightarrow> map_of kvs k | _ \<Rightarrow> None)"

definition getSettings :: "jsval option \<Rightarrow> settings" where
  "getSettings stored =
     (let r = getSettings_js stored in
      \<lparr> excludeDomains = (case returned_field r ''excludeDomains'' of Some (JArr xs) \<Rightarrow> xs | _ \<Rightarrow> []),
        timeGranularityMs = (case returned_field r ''timeGranularityMs'' of Some (JNum n) \<Rightarrow> n
                             | _ \<Rightarrow> DEFAULT_GRANULARITY_MS),
        keepIncognitoData = (returned_field r ''keepIncognitoData'' = Some (JBool True)) \<rparr>)"

text \<open>
  \<^verbatim>\<open>function shouldTrack(hostname, excludeDomains) {
    if (!hostname) return false;
    return !excludeDomains.includes(hostname);
  }\<close>
  \<^verbatim>\<open>includes\<close> compares with strict equality, so a string matches string entries only.
\<close>

definition shouldTrack :: "string \<Rightarrow> jsval list \<Rightarrow> bool" where
  "shouldTrack hostname excl = (if hostname = [] then False else JStr hostname \<notin> set excl)"

subsection \<open>Domain classification\<close>

text \<open>
  \<^verbatim>\<open>function hostnameFromUrl(url) {
    if (!url || url.startsWith('chrome://') || url.startsWith('chrome-extension://')
        || url.startsWith('edge://') || url.startsWith('about:')) {
      return null;
    }
    try {
      const u = new URL(url);
      return u.hostname.replace(/^www\./, '') || null;
    } catch {
      return null;
    }
  }\<close>
  The browser's URL parser is not part of the repository: it is the parameter \<open>URL\<close>,
  which gives the \<^verbatim>\<open>hostname\<close> of the parsed URL, or \<^const>\<open>None\<close> when the constructor
  throws.
\<close>

fun startsWith :: "string \<Rightarrow> string \<Rightarrow> bool" where
  "startsWith s [] = True"
| "startsWith [] (c # p) = False"
| "startsWith (d # s) (c # p) = (d = c \<and> startsWith s p)"

definition replace_www :: "string \<Rightarrow> string" where
  "replace_www h = (if startsWith h ''www.'' then drop 4 h else h)"

definition hostnameFromUrl :: "(string \<Rightarrow> string option) \<Rightarrow> string \<Rightarrow> string option" where
  "hostnameFromUrl URL url =
     (if url = [] \<or> startsWith url ''chrome://'' \<or> startsWith url ''chrome-extension://''
         \<or> startsWith url ''edge://'' \<or> startsWith url ''about:''
      then None
      else (case URL url of
              None \<Rightarrow> None
            | Some hostname \<Rightarrow>
                (let h = replace_www hostname in if h = [] then None else Some h)))"

text \<open>
  What the URL standard's parser gives for the URLs used as examples below
  (\<^verbatim>\<open>new URL(u).hostname\<close>); every other string is left unparsable in this sample.
\<close>

definition URL_sample :: "string \<Rightarrow> string option" where
  "URL_sample u =
     (if u = ''https://www.youtube.com/watch?v=1'' then Some ''www.youtube.com''
      else if u = ''https://github.com/foo'' then Some ''github.com''
      else if u = ''chrome://extensions'' then Some ''extensions''
      else if u = ''file:///tmp/notes.html'' then Some []
      else if u = ''http://www./'' then Some ''www.''
      else None)"

subsection \<open>Stored data and the tracker's state\<close>

record block =
  b_start :: int
  b_end :: int
  b_domain :: string

text \<open>
  A day record \<^verbatim>\<open>{ domains: { [domain]: { ms } }, timeline: [ { start, end, domain } ] }\<close>.
\<close>

record day =
  domains :: "string \<rightharpoonup> int"
  timeline :: "block list"

text \<open>
  The value stored under \<^verbatim>\<open>_pendingSession\<close>. The recovery code reads every field
  defensively, so each may be missing.
\<close>

record pendingSession =
  p_domain :: "string option"
  p_start :: "int option"
  p_persistedAt :: "int option"
  p_windowId :: "int option"
  p_wasIncognito :: "bool option"

text \<open>The \<^verbatim>\<open>override\<close> argument of \<^verbatim>\<open>endSession\<close>.\<close>

record override =
  o_domain :: "string option"
  o_start :: "int option"
  o_persistedAt :: "int option"
  o_tabIdToCheck :: "int option"
  o_wasIncognito :: "bool option"

text \<open>
  The locals an \<^verbatim>\<open>endSession\<close> call holds across its first \<^verbatim>\<open>await\<close>. A promise of an
  \<^verbatim>\<open>endSession\<close> in flight is identified with them: \<^verbatim>\<open>pendingWrite\<close> is such a promise
  or \<^verbatim>\<open>null\<close>.
\<close>

record capture =
  c_domain :: string
  c_start :: int
  c_persistedAt :: "int option"
  c_wasIncognito :: bool

text \<open>
  The module's globals together with the four storage keys the tracker uses
  (\<^verbatim>\<open>settings\<close>, \<^verbatim>\<open>days\<close>, \<^verbatim>\<open>currentSession\<close>, \<^verbatim>\<open>_pendingSession\<close>).
\<close>

record state =
  lastDomain :: "string option"
  lastStartTimestamp :: "int option"
  lastPersistedAt :: "int option"
  lastTabId :: "int option"
  lastTabIncognito :: bool
  lastFocusedWindowId :: "int option"
  lastTrackedWindowId :: "int option"
  incognitoWindowIds :: "int set"
  isIdle :: bool
  pendingWrite :: "capture option"
  stored_settings :: "jsval option"
  stored_days :: "string \<rightharpoonup> day"
  currentSession :: "(string \<times> int) option"
  stored_pendingSession :: "pendingSession option"

text \<open>What the browser answers: \<^verbatim>\<open>chrome.tabs.get\<close>, \<^verbatim>\<open>chrome.windows.get\<close>, \<^verbatim>\<open>new URL\<close>.\<close>

record tab =
  tab_url :: "string option"
  tab_incognito :: bool
  tab_windowId :: int

record browser =
  tabs_get :: "int \<Rightarrow> tab option"
  windows_get :: "int \<Rightarrow> bool"
  URL :: "string \<Rightarrow> string option"

text \<open>
  The day records and their \<^verbatim>\<open>domains\<close> are plain JavaScript objects used as maps, so
  a lookup also finds what every object inherits from \<^verbatim>\<open>Object.prototype\<close>. The names
  below are its properties. \<open>key\<close> stands throughout for the value of
  \<^verbatim>\<open>getDateKey()\<close>, a string of the form \<^verbatim>\<open>YYYY-MM-DD\<close>, which is none of these names,
  so \<^verbatim>\<open>days[key]\<close> is a lookup among the own properties. A hostname can be one of them
  (\<^verbatim>\<open>http://constructor/\<close> has the hostname \<^verbatim>\<open>constructor\<close>).

  \<^verbatim>\<open>if (!days[key]) days[key] = { domains: {}, timeline: [] };\<close> is \<open>getDayData\<close>.
  \<^verbatim>\<open>if (!day.domains[domain]) day.domains[domain] = { ms: 0 };\<close> is \<open>touch_domain\<close>: with
  no own entry and an inherited property of that name, the lookup is truthy and no
  entry is made. \<^verbatim>\<open>day.domains[domain].ms += n\<close> is \<open>add_ms\<close>: without an own entry the
  assignment lands on the inherited object and the day record stays as it is.
  \<open>domain_ms\<close> is the total the day record holds for a domain.
\<close>

definition Object_prototype_names :: "string list" where
  "Object_prototype_names =
     [''constructor'', ''__defineGetter__'', ''__defineSetter__'', ''hasOwnProperty'',
      ''__lookupGetter__'', ''__lookupSetter__'', ''isPrototypeOf'', ''propertyIsEnumerable'',
      ''toString'', ''valueOf'', ''__proto__'', ''toLocaleString'']"

definition inherited :: "string \<Rightarrow> bool" where
  "inherited name = (name \<in> set Object_prototype_names)"

definition getDayData :: "(string \<rightharpoonup> day) \<Rightarrow> string \<Rightarrow> day" where
  "getDayData days key =
     (case days key of None \<Rightarrow> \<lparr> domains = Map.empty, timeline = [] \<rparr> | Some d \<Rightarrow> d)"

definition touch_domain :: "day \<Rightarrow> string \<Rightarrow> day" where
  "touch_domain d name =
     (case domains d name of
        Some ms \<Rightarrow> d
      | None \<Rightarrow> if inherited name then d else d\<lparr> domains := (domains d)(name \<mapsto> 0) \<rparr>)"

definition add_ms :: "day \<Rightarrow> string \<Rightarrow> int \<Rightarrow> day" where
  "add_ms d name n =
     (case domains d name of
        Some ms \<Rightarrow> d\<lparr> domains := (domains d)(name \<mapsto> ms + n) \<rparr>
      | None \<Rightarrow> d)"

definition domain_ms :: "day \<Rightarrow> string \<Rightarrow> int" where
  "domain_ms d domain = (case domains d domain of None \<Rightarrow> 0 | Some ms \<Rightarrow> ms)"

text \<open>A property name made from a value that may be \<^verbatim>\<open>null\<close>.\<close>

definition property_name :: "string option \<Rightarrow> string" where
  "property_name v = (case v of None \<Rightarrow> ''null'' | Some s \<Rightarrow> s)"

subsection \<open>Session tracker\<close>

text \<open>
  An async function runs in segments that end at its \<^verbatim>\<open>await\<close>s; between two segments
  other handlers may run. Each function is therefore embedded segment by segment: a
  value of \<open>end_await\<close> or \<open>flush_await\<close> is a call suspended at one of its \<^verbatim>\<open>await\<close>s
  together with the locals it holds, and \<open>..._resume\<close> runs the next segment. A request
  to \<^verbatim>\<open>chrome.storage.local\<close> takes effect when it is issued (the requests of the
  service worker are served in order), and its result is what the suspended call holds.
  \<open>now\<close> and \<open>key\<close> are what \<^verbatim>\<open>Date.now()\<close> and \<^verbatim>\<open>getDateKey()\<close> return in the segment that
  calls them. A run takes a function \<open>h\<close> that says what the other handlers do to the
  state at the first, second and third \<^verbatim>\<open>await\<close>; with \<open>h\<close> the identity the call runs
  with nothing in between, and that run carries the function's own name.

  \<^verbatim>\<open>async function endSession(override) {
    const useOverride = override && override.domain != null && override.start != null;
    const domain = useOverride ? override.domain : lastDomain;
    const start = useOverride ? override.start : lastStartTimestamp;
    const persistedAt = useOverride ? override.persistedAt : lastPersistedAt;
    const tabIdToCheck = ...;   // never read
    const wasIncognito = useOverride && override.wasIncognito !== undefined ? override.wasIncognito : lastTabIncognito;
    if (domain != null && start != null) {
      lastDomain = null; lastStartTimestamp = null; lastPersistedAt = null;
      lastTabId = null; lastTabIncognito = false; lastTrackedWindowId = null;
    }
    if (domain == null || start == null) return;\<close>
  This first segment is \<open>endSession_claim\<close>; it ends by issuing the read of the settings
  (\<open>endSession_begin\<close>).
\<close>

definition session_locals ::
  "override option \<Rightarrow> state \<Rightarrow> string option \<times> int option \<times> int option \<times> bool" where
  "session_locals ov w =
     (let globals = (lastDomain w, lastStartTimestamp w, lastPersistedAt w, lastTabIncognito w)
      in case ov of
           None \<Rightarrow> globals
         | Some v \<Rightarrow>
             (case (o_domain v, o_start v) of
                (Some d, Some s) \<Rightarrow>
                  (Some d, Some s, o_persistedAt v,
                   (case o_wasIncognito v of None \<Rightarrow> lastTabIncognito w | Some b \<Rightarrow> b))
              | _ \<Rightarrow> globals))"

definition endSession_claim :: "override option \<Rightarrow> state \<Rightarrow> capture option \<times> state" where
  "endSession_claim ov w =
     (case session_locals ov w of
        (Some d, Some s, persistedAt, wasIncognito) \<Rightarrow>
          (Some \<lparr> c_domain = d, c_start = s, c_persistedAt = persistedAt,
                  c_wasIncognito = wasIncognito \<rparr>,
           w\<lparr> lastDomain := None, lastStartTimestamp := None, lastPersistedAt := None,
              lastTabId := None, lastTabIncognito := False, lastTrackedWindowId := None \<rparr>)
      | _ \<Rightarrow> (None, w))"

datatype end_await =
    End_getSettings capture settings
  | End_getDays capture int int string "string \<rightharpoonup> day"
  | End_setDays

definition endSession_begin :: "capture \<Rightarrow> state \<Rightarrow> end_await" where
  "endSession_begin c w = End_getSettings c (getSettings (stored_settings w))"

text \<open>
  \<^verbatim>\<open>  const settings = await getSettings();
    if (!shouldTrack(domain, settings.excludeDomains)) return;
    if (!settings.keepIncognitoData && wasIncognito) { pendingWrite = null; return; }
    const now = Date.now();
    const increment = roundMs(now - (persistedAt ?? start), settings.timeGranularityMs);
    const key = getDateKey();
    const data = await chrome.storage.local.get({ days: {} });
    const days = data.days || {};
    if (!days[key]) days[key] = { domains: {}, timeline: [] };
    const day = days[key];
    if (!day.domains[domain]) day.domains[domain] = { ms: 0 };
    if (increment > 0) day.domains[domain].ms += increment;
    day.timeline.push({ start, end: now, domain });
    await chrome.storage.local.set({ days, currentSession: null, _pendingSession: null });
    pendingWrite = null;
  }\<close>
\<close>

fun endSession_resume :: "int \<Rightarrow> string \<Rightarrow> end_await \<Rightarrow> state \<Rightarrow> end_await option \<times> state" where
  "endSession_resume now key (End_getSettings c settings) w =
     (if \<not> shouldTrack (c_domain c) (excludeDomains settings) then (None, w)
      else if \<not> keepIncognitoData settings \<and> c_wasIncognito c
      then (None, w\<lparr> pendingWrite := None \<rparr>)
      else
        let increment = roundMs_int (now - (case c_persistedAt c of None \<Rightarrow> c_start c | Some p \<Rightarrow> p))
                                    (timeGranularityMs settings)
        in (Some (End_getDays c now increment key (stored_days w)), w))"
| "endSession_resume now' key' (End_getDays c now increment key days) w =
     (let d0 = getDayData days key;
          d1 = touch_domain d0 (c_domain c);
          d2 = (if increment > 0 then add_ms d1 (c_domain c) increment else d1);
          d3 = d2\<lparr> timeline := timeline d2 @
                     [\<lparr> b_start = c_start c, b_end = now, b_domain = c_domain c \<rparr>] \<rparr>
      in (Some End_setDays,
          w\<lparr> stored_days := days(key \<mapsto> d3), currentSession := None,
             stored_pendingSession := None \<rparr>))"
| "endSession_resume now' key' End_setDays w = (None, w\<lparr> pendingWrite := None \<rparr>)"

definition endSession_run ::
  "(nat \<Rightarrow> state \<Rightarrow> state) \<Rightarrow> int \<Rightarrow> string \<Rightarrow> capture \<Rightarrow> state \<Rightarrow> state" where
  "endSession_run h now key c w =
     (case endSession_resume now key (endSession_begin c w) (h 1 w) of
        (None, w1) \<Rightarrow> w1
      | (Some a1, w1) \<Rightarrow>
          (case endSession_resume now key a1 (h 2 w1) of
             (None, w2) \<Rightarrow> w2
           | (Some a2, w2) \<Rightarrow> snd (endSession_resume now key a2 (h 3 w2))))"

definition endSession_persist :: "int \<Rightarrow> string \<Rightarrow> capture \<Rightarrow> state \<Rightarrow> state" where
  "endSession_persist now key c w = endSession_run (\<lambda>i w'. w') now key c w"

definition endSession :: "override option \<Rightarrow> int \<Rightarrow> string \<Rightarrow> state \<Rightarrow> state" where
  "endSession ov now key w =
     (case endSession_claim ov w of
        (None, w') \<Rightarrow> w'
      | (Some c, w') \<Rightarrow> endSession_persist now key c w')"

text \<open>
  \<^verbatim>\<open>async function persistRunningTotal() {
    if (lastDomain == null || lastStartTimestamp == null) return;
    const settings = await getSettings();
    if (!shouldTrack(lastDomain, settings.excludeDomains)) {
      lastDomain = null; lastStartTimestamp = null; lastPersistedAt = null; lastTabId = null;
      await chrome.storage.local.set({ currentSession: null });
      return;
    }
    if (!settings.keepIncognitoData && lastTabIncognito) return;
    const now = Date.now();
    const from = lastPersistedAt ?? lastStartTimestamp;
    const delta = roundMs(now - from, settings.timeGranularityMs);
    if (delta <= 0) { lastPersistedAt = now; return; }
    const key = getDateKey();
    const data = await chrome.storage.local.get({ days: {} });
    const days = data.days || {};
    if (!days[key]) days[key] = { domains: {}, timeline: [] };
    const day = days[key];
    if (!day.domains[lastDomain]) day.domains[lastDomain] = { ms: 0 };
    day.domains[lastDomain].ms += delta;
    lastPersistedAt = now;
    await chrome.storage.local.set({ days });
    pendingWrite = null;
  }\<close>
  Every segment reads the globals as they are when it runs: \<^verbatim>\<open>lastDomain\<close> may have
  become \<^verbatim>\<open>null\<close> since the first line (\<^verbatim>\<open>shouldTrack(null, ...)\<close> is false;
  \<^verbatim>\<open>day.domains[null]\<close> is the property \<^verbatim>\<open>"null"\<close>), and \<^verbatim>\<open>now - null\<close> is \<^verbatim>\<open>now\<close>.
\<close>

datatype flush_await =
    Flush_getSettings settings
  | Flush_setCurrentSession
  | Flush_getDays int int string "string \<rightharpoonup> day"
  | Flush_setDays

definition persistRunningTotal_call :: "state \<Rightarrow> flush_await option" where
  "persistRunningTotal_call w =
     (case (lastDomain w, lastStartTimestamp w) of
        (Some dm, Some start) \<Rightarrow> Some (Flush_getSettings (getSettings (stored_settings w)))
      | _ \<Rightarrow> None)"

fun persistRunningTotal_resume ::
  "int \<Rightarrow> string \<Rightarrow> flush_await \<Rightarrow> state \<Rightarrow> flush_await option \<times> state" where
  "persistRunningTotal_resume now key (Flush_getSettings settings) w =
     (if \<not> (case lastDomain w of None \<Rightarrow> False
              | Some dm \<Rightarrow> shouldTrack dm (excludeDomains settings))
      then (Some Flush_setCurrentSession,
            w\<lparr> lastDomain := None, lastStartTimestamp := None, lastPersistedAt := None,
               lastTabId := None, currentSession := None \<rparr>)
      else if \<not> keepIncognitoData settings \<and> lastTabIncognito w then (None, w)
      else
        let from = (case lastPersistedAt w of
                      Some p \<Rightarrow> p
                    | None \<Rightarrow> (case lastStartTimestamp w of Some s \<Rightarrow> s | None \<Rightarrow> 0));
            delta = roundMs_int (now - from) (timeGranularityMs settings)
        in if delta \<le> 0 then (None, w\<lparr> lastPersistedAt := Some now \<rparr>)
           else (Some (Flush_getDays now delta key (stored_days w)), w))"
| "persistRunningTotal_resume now' key' Flush_setCurrentSession w = (None, w)"
| "persistRunningTotal_resume now' key' (Flush_getDays now delta key days) w =
     (let name = property_name (lastDomain w);
          d = add_ms (touch_domain (getDayData days key) name) name delta
      in (Some Flush_setDays,
          w\<lparr> lastPersistedAt := Some now, stored_days := days(key \<mapsto> d) \<rparr>))"
| "persistRunningTotal_resume now' key' Flush_setDays w = (None, w\<lparr> pendingWrite := None \<rparr>)"

definition persistRunningTotal_run ::
  "(nat \<Rightarrow> state \<Rightarrow> state) \<Rightarrow> int \<Rightarrow> string \<Rightarrow> state \<Rightarrow> state" where
  "persistRunningTotal_run h now key w =
     (case persistRunningTotal_call w of
        None \<Rightarrow> w
      | Some a0 \<Rightarrow>
          (case persistRunningTotal_resume now key a0 (h 1 w) of
             (None, w1) \<Rightarrow> w1
           | (Some a1, w1) \<Rightarrow>
               (case persistRunningTotal_resume now key a1 (h 2 w1) of
                  (None, w2) \<Rightarrow> w2
                | (Some a2, w2) \<Rightarrow> snd (persistRunningTotal_resume now key a2 (h 3 w2)))))"

definition persistRunningTotal :: "int \<Rightarrow> string \<Rightarrow> state \<Rightarrow> state" where
  "persistRunningTotal now key w = persistRunningTotal_run (\<lambda>i w'. w') now key w"

text \<open>
  \<^verbatim>\<open>function stopTracking() {
    if (lastDomain == null || lastStartTimestamp == null) return null;
    if (pendingWrite) return pendingWrite;
    const sessionOverride = { domain: lastDomain, start: lastStartTimestamp,
      persistedAt: lastPersistedAt, tabIdToCheck: lastTabId, wasIncognito: lastTabIncognito };
    pendingWrite = endSession(sessionOverride);
    pendingWrite.finally(() => { pendingWrite = null; });
    return pendingWrite;
  }\<close>
  Calling the async \<^verbatim>\<open>endSession\<close> runs its first segment, \<open>endSession_claim\<close>; the
  promise it returns is identified with the locals the call has captured, and that is
  what \<^verbatim>\<open>pendingWrite\<close> holds. \<open>settle_among h\<close> is the rest of the call, with the other
  handlers \<open>h\<close> in between, followed by the \<^verbatim>\<open>finally\<close> callback; \<open>settle\<close> is that with
  nothing in between.
\<close>

definition stopTracking :: "state \<Rightarrow> capture option \<times> state" where
  "stopTracking w =
     (case (lastDomain w, lastStartTimestamp w) of
        (Some dm, Some start) \<Rightarrow>
          (case pendingWrite w of
             Some p \<Rightarrow> (Some p, w)
           | None \<Rightarrow>
               (let sessionOverride =
                      \<lparr> o_domain = lastDomain w, o_start = lastStartTimestamp w,
                        o_persistedAt = lastPersistedAt w, o_tabIdToCheck = lastTabId w,
                        o_wasIncognito = Some (lastTabIncognito w) \<rparr>
                in case endSession_claim (Some sessionOverride) w of
                     (p, w') \<Rightarrow> (p, w'\<lparr> pendingWrite := p \<rparr>)))
      | _ \<Rightarrow> (None, w))"

definition settle_among ::
  "(nat \<Rightarrow> state \<Rightarrow> state) \<Rightarrow> int \<Rightarrow> string \<Rightarrow> capture \<Rightarrow> state \<Rightarrow> state" where
  "settle_among h now key p w = (endSession_run h now key p w)\<lparr> pendingWrite := None \<rparr>"

definition settle :: "int \<Rightarrow> string \<Rightarrow> capture \<Rightarrow> state \<Rightarrow> state" where
  "settle now key p w = (endSession_persist now key p w)\<lparr> pendingWrite := None \<rparr>"

text \<open>\<^verbatim>\<open>const w = stopTracking(); if (w) await w;\<close>\<close>

definition stopTracking_await :: "int \<Rightarrow> string \<Rightarrow> state \<Rightarrow> state" where
  "stopTracking_await now key w =
     (case stopTracking w of
        (None, w') \<Rightarrow> w'
      | (Some p, w') \<Rightarrow> settle now key p w')"

text \<open>
  \<^verbatim>\<open>async function startTracking(hostname, tabId) {
    const settings = await getSettings();
    if (!shouldTrack(hostname, settings.excludeDomains)) return;
    lastDomain = hostname;
    const now = Date.now();
    lastStartTimestamp = now;
    lastPersistedAt = now;
    lastTabId = tabId ?? null;
    if (tabId != null) {
      try {
        const tab = await chrome.tabs.get(tabId).catch(() => null);
        lastTabIncognito = tab?.incognito ?? false;
        lastTrackedWindowId = tab?.windowId ?? null;
        if (tab?.incognito && tab?.windowId) incognitoWindowIds.add(tab.windowId);
      } catch (err) { lastTabIncognito = false; }
    } else {
      lastTabIncognito = false;
    }
    const pendingSession = { domain: hostname, start: now, persistedAt: now,
      windowId: lastTrackedWindowId ?? undefined, wasIncognito: lastTabIncognito };
    await chrome.storage.local.set({
      currentSession: { domain: hostname, start: now }, _pendingSession: pendingSession });
  }\<close>
\<close>

definition startTracking :: "browser \<Rightarrow> int \<Rightarrow> string \<Rightarrow> int option \<Rightarrow> state \<Rightarrow> state" where
  "startTracking br now hostname tabId w =
     (let settings = getSettings (stored_settings w) in
      if \<not> shouldTrack hostname (excludeDomains settings) then w
      else
        let w1 = w\<lparr> lastDomain := Some hostname, lastStartTimestamp := Some now,
                    lastPersistedAt := Some now, lastTabId := tabId \<rparr>;
            w2 = (case tabId of
                    None \<Rightarrow> w1\<lparr> lastTabIncognito := False \<rparr>
                  | Some tid \<Rightarrow>
                      (case tabs_get br tid of
                         None \<Rightarrow> w1\<lparr> lastTabIncognito := False, lastTrackedWindowId := None \<rparr>
                       | Some t \<Rightarrow>
                           w1\<lparr> lastTabIncognito := tab_incognito t,
                               lastTrackedWindowId := Some (tab_windowId t),
                               incognitoWindowIds :=
                                 (if tab_incognito t \<and> tab_windowId t \<noteq> 0
                                  then insert (tab_windowId t) (incognitoWindowIds w1)
                                  else incognitoWindowIds w1) \<rparr>))
        in w2\<lparr> currentSession := Some (hostname, now),
                stored_pendingSession :=
                  Some \<lparr> p_domain = Some hostname, p_start = Some now, p_persistedAt = Some now,
                         p_windowId = lastTrackedWindowId w2,
                         p_wasIncognito = Some (lastTabIncognito w2) \<rparr> \<rparr>)"

subsection \<open>Event reconciler: the active tab\<close>

text \<open>
  The first statement of \<^verbatim>\<open>handleActiveTab(tabId, windowId)\<close>, the recovery from the
  durable marker:
  \<^verbatim>\<open>if (lastTabId == null && lastDomain == null) {
    const stored = await chrome.storage.local.get({ _pendingSession: null });
    const pending = stored._pendingSession;
    if (pending?.domain != null && pending?.start != null && pending?.windowId != null
        && pending.windowId !== windowId) {
      const pendingWindowGone = await chrome.windows.get(pending.windowId).then(() => false, () => true);
      if (pendingWindowGone) {
        await endSession({ domain: pending.domain, start: pending.start,
          persistedAt: pending.persistedAt, tabIdToCheck: undefined,
          wasIncognito: pending.wasIncognito !== false });
        await chrome.storage.local.set({ _pendingSession: null });
        lastFocusedWindowId = windowId;
      }
    }
  }\<close>
\<close>

definition recover_override :: "pendingSession \<Rightarrow> override" where
  "recover_override pending =
     \<lparr> o_domain = p_domain pending, o_start = p_start pending,
       o_persistedAt = p_persistedAt pending, o_tabIdToCheck = None,
       o_wasIncognito = Some (p_wasIncognito pending \<noteq> Some False) \<rparr>"

definition handleActiveTab_recover :: "browser \<Rightarrow> int \<Rightarrow> string \<Rightarrow> int \<Rightarrow> state \<Rightarrow> state" where
  "handleActiveTab_recover br now key windowId w =
     (case (lastTabId w, lastDomain w) of
        (None, None) \<Rightarrow>
          (case stored_pendingSession w of
             None \<Rightarrow> w
           | Some pending \<Rightarrow>
               (case (p_domain pending, p_start pending, p_windowId pending) of
                  (Some d, Some s, Some pw) \<Rightarrow>
                    if pw \<noteq> windowId \<and> \<not> windows_get br pw
                    then (endSession (Some (recover_override pending)) now key w)
                           \<lparr> stored_pendingSession := None,
                             lastFocusedWindowId := Some windowId \<rparr>
                    else w
                | _ \<Rightarrow> w))
      | _ \<Rightarrow> w)"

text \<open>
  The rest of \<^verbatim>\<open>handleActiveTab\<close>:
  \<^verbatim>\<open>if (windowId !== lastFocusedWindowId) {
    const w = stopTracking(); if (w) await w;
    lastFocusedWindowId = windowId;
  } else if (lastDomain != null && lastTrackedWindowId != null && windowId !== lastTrackedWindowId) {
    const w = stopTracking(); if (w) await w;
    lastFocusedWindowId = windowId;
  }
  if (tabId == null) return;
  try {
    const tab = await chrome.tabs.get(tabId);
    const hostname = hostnameFromUrl(tab?.url);
    const url = tab?.url || '';
    const tabStillLoading = !url || url === 'about:blank';
    if (tabId !== lastTabId && lastDomain != null
        && (hostname === lastDomain || (hostname == null && tabStillLoading))) {
      lastTabId = tabId;
      return;
    }
    if (tabId !== lastTabId) { const w = stopTracking(); if (w) await w; }
    if (hostname && lastFocusedWindowId === windowId) {
      await startTracking(hostname, tabId);
    } else {
      const w = stopTracking(); if (w) await w;
      if (!hostname) await chrome.storage.local.set({ currentSession: null });
    }
  } catch {
    const w = stopTracking(); if (w) await w;
    await chrome.storage.local.set({ currentSession: null }).catch(() => {});
  }\<close>
  \<^verbatim>\<open>chrome.tabs.get\<close> rejects when the tab no longer exists, which is the \<^verbatim>\<open>catch\<close> branch.
\<close>

definition handleActiveTab_window :: "int \<Rightarrow> string \<Rightarrow> int \<Rightarrow> state \<Rightarrow> state" where
  "handleActiveTab_window now key windowId w =
     (if Some windowId \<noteq> lastFocusedWindowId w
      then (stopTracking_await now key w)\<lparr> lastFocusedWindowId := Some windowId \<rparr>
      else if lastDomain w \<noteq> None \<and> lastTrackedWindowId w \<noteq> None
              \<and> Some windowId \<noteq> lastTrackedWindowId w
      then (stopTracking_await now key w)\<lparr> lastFocusedWindowId := Some windowId \<rparr>
      else w)"

definition handleActiveTab_tab ::
  "browser \<Rightarrow> int \<Rightarrow> string \<Rightarrow> int \<Rightarrow> int \<Rightarrow> state \<Rightarrow> state" where
  "handleActiveTab_tab br now key tabId windowId w =
     (case tabs_get br tabId of
        None \<Rightarrow> (stopTracking_await now key w)\<lparr> currentSession := None \<rparr>
      | Some t \<Rightarrow>
          (let hostname = (case tab_url t of None \<Rightarrow> None | Some u \<Rightarrow> hostnameFromUrl (URL br) u);
               url = (case tab_url t of None \<Rightarrow> [] | Some u \<Rightarrow> u);
               tabStillLoading = (url = [] \<or> url = ''about:blank'')
           in if Some tabId \<noteq> lastTabId w \<and> lastDomain w \<noteq> None
                 \<and> (hostname = lastDomain w \<or> (hostname = None \<and> tabStillLoading))
              then w\<lparr> lastTabId := Some tabId \<rparr>
              else
                let w' = (if Some tabId \<noteq> lastTabId w then stopTracking_await now key w else w)
                in case hostname of
                     Some h \<Rightarrow>
                       if lastFocusedWindowId w' = Some windowId
                       then startTracking br now h (Some tabId) w'
                       else stopTracking_await now key w'
                   | None \<Rightarrow> (stopTracking_await now key w')\<lparr> currentSession := None \<rparr>))"

definition handleActiveTab ::
  "browser \<Rightarrow> int \<Rightarrow> string \<Rightarrow> int option \<Rightarrow> int \<Rightarrow> state \<Rightarrow> state" where
  "handleActiveTab br now key tabId windowId w =
     (let w1 = handleActiveTab_recover br now key windowId w;
          w2 = handleActiveTab_window now key windowId w1
      in case tabId of
           None \<Rightarrow> w2
         | Some tid \<Rightarrow> handleActiveTab_tab br now key tid windowId w2)"

subsection \<open>The periodic alarm, repeated\<close>

text \<open>A run of periodic flushes, each with its own clock reading and date key.\<close>

fun flushes :: "(int \<times> string) list \<Rightarrow> state \<Rightarrow> state" where
  "flushes [] w = w"
| "flushes ((now, key) # rest) w = flushes rest (persistRunningTotal now key w)"

subsection \<open>Sample states\<close>

text \<open>
  An idle tracker over an empty store, and browsers with one normal or one incognito
  tab, used to run the definitions on concrete inputs.
\<close>

definition idle_state :: state where
  "idle_state =
     \<lparr> lastDomain = None, lastStartTimestamp = None, lastPersistedAt = None, lastTabId = None,
       lastTabIncognito = False, lastFocusedWindowId = None, lastTrackedWindowId = None,
       incognitoWindowIds = {}, isIdle = False, pendingWrite = None,
       stored_settings = None, stored_days = Map.empty, currentSession = None,
       stored_pendingSession = None \<rparr>"

definition sample_browser :: browser where
  "sample_browser =
     \<lparr> tabs_get = (\<lambda>i. if i = 1 then Some \<lparr> tab_url = Some ''https://github.com/foo'',
                                             tab_incognito = False, tab_windowId = 10 \<rparr>
                         else if i = 2 then Some \<lparr> tab_url = Some ''https://github.com/foo'',
                                                  tab_incognito = True, tab_windowId = 20 \<rparr>
                         else None),
       windows_get = (\<lambda>i. i = 10),
       URL = URL_sample \<rparr>"

text \<open>
  A session on \<^verbatim>\<open>github.com\<close> started at time 0 in a normal tab and in an incognito
  tab; the settings after the user has excluded \<^verbatim>\<open>github.com\<close>; and a session started
  at time 2000 while the \<^verbatim>\<open>endSession\<close> of the previous one is still in flight
  (\<^verbatim>\<open>stopTracking()\<close> called without \<^verbatim>\<open>await\<close>, as the idle handler does).
\<close>

definition github_session :: state where
  "github_session = startTracking sample_browser 0 ''github.com'' (Some 1) idle_state"

definition incognito_session :: state where
  "incognito_session = startTracking sample_browser 0 ''github.com'' (Some 2) idle_state"

definition exclude_github :: "state \<Rightarrow> state" where
  "exclude_github w =
     w\<lparr> stored_settings := Some (JObj [(''excludeDomains'', JArr [JStr ''github.com''])]) \<rparr>"

definition overlapping_session :: state where
  "overlapping_session =
     startTracking sample_browser 2000 ''github.com'' (Some 1) (snd (stopTracking github_session))"

text \<open>
  A restart of the service worker: the globals are back at their initialisers
  (\<^verbatim>\<open>let lastDomain = null; ...\<close>) and storage is kept. \<open>interrupted_session\<close> is the
  \<^verbatim>\<open>github.com\<close> session flushed once at 30500 and then cut off by a restart;
  \<open>browser_after_close\<close> is the browser once that session's window 10 is gone.
\<close>

definition restarted :: "state \<Rightarrow> state" where
  "restarted w =
     w\<lparr> lastDomain := None, lastStartTimestamp := None, lastPersistedAt := None,
        lastTabId := None, lastTabIncognito := False, lastFocusedWindowId := None,
        lastTrackedWindowId := None, incognitoWindowIds := {}, isIdle := False,
        pendingWrite := None \<rparr>"

definition browser_after_close :: browser where
  "browser_after_close =
     \<lparr> tabs_get = (\<lambda>i. if i = 3 then Some \<lparr> tab_url = Some ''chrome://extensions'',
                                             tab_incognito = False, tab_windowId = 30 \<rparr>
                         else None),
       windows_get = (\<lambda>i. i = 30),
       URL = URL_sample \<rparr>"

definition interrupted_session :: state where
  "interrupted_session = restarted (persistRunningTotal 30500 ''2025-02-13'' github_session)"


text \<open>
  A browser whose tab 1 shows \<^verbatim>\<open>http://constructor/\<close> (a host on the local network),
  and a session on that hostname started at time 0.
\<close>

definition intranet_browser :: browser where
  "intranet_browser =
     \<lparr> tabs_get = (\<lambda>i. if i = 1 then Some \<lparr> tab_url = Some ''http://constructor/'',
                                             tab_incognito = False, tab_windowId = 10 \<rparr>
                         else None),
       windows_get = (\<lambda>i. i = 10),
       URL = (\<lambda>u. if u = ''http://constructor/'' then Some ''constructor'' else None) \<rparr>"

definition constructor_session :: state where
  "constructor_session = startTracking intranet_browser 0 ''constructor'' (Some 1) idle_state"

text \<open>A second call of \<^verbatim>\<open>stopTracking()\<close> at every \<^verbatim>\<open>await\<close> of a call in flight.\<close>

definition stop_again :: "nat \<Rightarrow> state \<Rightarrow> state" where
  "stop_again i w = snd (stopTracking w)"


section \<open>Properties\<close>

subsection \<open>Rounding to doubles\<close>

lemma pow2_pos: "0 < pow2 e" by (simp add: pow2_def)

lemma pow2_add1: "pow2 (e + 1) = 2 * pow2 e"
proof (cases "0 \<le> e")
  case True
  then show ?thesis by (simp add: pow2_def nat_add_distrib)
next
  case False
  then have "nat (- e) = Suc (nat (- (e + 1)))" by simp
  then show ?thesis using False by (simp add: pow2_def)
qed

lemma exp_up_bounds:
  "1 \<le> a \<Longrightarrow> a < 2 ^ n \<Longrightarrow>
   pow2 (exp_up n a) \<le> a \<and> a < 2 * pow2 (exp_up n a) \<and> 0 \<le> exp_up n a \<and> exp_up n a < int n"
proof (induction n arbitrary: a)
  case 0
  then show ?case by simp
next
  case (Suc n)
  show ?case
  proof (cases "2 \<le> a")
    case True
    have "1 \<le> a / 2" "a / 2 < 2 ^ n" using True Suc.prems by simp_all
    from Suc.IH [OF this] show ?thesis using True by (simp add: pow2_add1)
  next
    case False
    then show ?thesis using Suc.prems by (simp add: pow2_def)
  qed
qed

lemma exp_down_bounds:
  "0 < a \<Longrightarrow> a < 1 \<Longrightarrow> 1 / 2 ^ n \<le> a \<Longrightarrow>
   pow2 (exp_down n a) \<le> a \<and> a < 2 * pow2 (exp_down n a) \<and> exp_down n a < 0"
proof (induction n arbitrary: a)
  case 0
  then show ?case by simp
next
  case (Suc n)
  show ?case
  proof (cases "a * 2 < 1")
    case True
    have "0 < a * 2" "1 / 2 ^ n \<le> a * 2" using Suc.prems by (simp_all add: field_simps)
    from Suc.IH [OF this(1) True this(2)]
    have ih: "pow2 (exp_down n (a * 2)) \<le> a * 2" "a * 2 < 2 * pow2 (exp_down n (a * 2))"
      "exp_down n (a * 2) < 0" by simp_all
    have "pow2 (exp_down n (a * 2)) = 2 * pow2 (exp_down n (a * 2) - 1)"
      using pow2_add1 [of "exp_down n (a * 2) - 1"] by simp
    then show ?thesis using ih Suc.prems by simp
  next
    case False
    then have "exp_down (Suc n) a = exp_down n (a * 2) - 1" using Suc.prems by simp
    moreover have "exp_down n (a * 2) = 0" using False by (cases n) simp_all
    ultimately show ?thesis using False Suc.prems by (simp add: pow2_def)
  qed
qed

lemma pow2_add_nat: "pow2 (e + int n) = 2 ^ n * pow2 e"
proof (induction n)
  case 0
  then show ?case by simp
next
  case (Suc n)
  have "pow2 (e + int (Suc n)) = pow2 ((e + int n) + 1)" by (simp add: ac_simps)
  also have "\<dots> = 2 * pow2 (e + int n)" by (rule pow2_add1)
  finally show ?case using Suc by simp
qed

lemma exponent_bounds:
  assumes "1 / 2 ^ 1022 \<le> a" and "a < 2 ^ 1024"
  shows "pow2 (exponent a) \<le> a \<and> a < 2 * pow2 (exponent a)"
proof (cases "1 \<le> a")
  case True
  then show ?thesis using exp_up_bounds [OF True assms(2)] by (simp add: exponent_def)
next
  case False
  have "0 < a" using assms(1) by (rule less_le_trans [rotated]) simp
  then show ?thesis using exp_down_bounds [of a 1022] False assms(1) by (simp add: exponent_def)
qed

lemma round_half_even_int: "round_half_even (of_int z) = z"
  by (simp add: round_half_even_def)

lemma round_half_even_err: "\<bar>of_int (round_half_even x) - x\<bar> \<le> 1 / 2"
proof -
  have "of_int \<lfloor>x\<rfloor> \<le> x" "x < of_int \<lfloor>x\<rfloor> + 1" by linarith+
  then show ?thesis by (auto simp: round_half_even_def Let_def abs_le_iff)
qed

lemma round_to_double_err:
  assumes "1 / 2 ^ 1022 \<le> \<bar>q\<bar>" and "\<bar>q\<bar> < 2 ^ 1023"
  shows "\<exists>r. round_to_double q = Num r \<and> \<bar>r - q\<bar> \<le> \<bar>q\<bar> / 2 ^ 53"
proof -
  let ?a = "\<bar>q\<bar>"
  let ?u = "pow2 (exponent ?a - 52)"
  let ?m = "round_half_even (?a / ?u)"
  let ?r = "of_int ?m * ?u"
  have q0: "q \<noteq> 0" using assms(1) by auto
  have a1024: "?a < 2 ^ 1024" using assms(2) by (rule less_trans) simp
  have eb: "pow2 (exponent ?a) \<le> ?a" using exponent_bounds [OF assms(1) a1024] by simp
  have u: "pow2 (exponent ?a) = 2 ^ 52 * ?u"
    using pow2_add_nat [of "exponent ?a - 52" 52] by simp
  have upos: "0 < ?u" by (rule pow2_pos)
  have "\<bar>of_int ?m - ?a / ?u\<bar> \<le> 1 / 2" by (rule round_half_even_err)
  then have "\<bar>of_int ?m - ?a / ?u\<bar> * ?u \<le> (1 / 2) * ?u"
    using upos by (simp only: mult_le_cancel_right_pos)
  moreover have "?r - ?a = (of_int ?m - ?a / ?u) * ?u"
    using upos by (simp add: left_diff_distrib)
  then have "\<bar>?r - ?a\<bar> = \<bar>of_int ?m - ?a / ?u\<bar> * ?u"
    using upos by (simp only: abs_mult abs_of_pos)
  ultimately have err: "\<bar>?r - ?a\<bar> \<le> ?u / 2" by simp
  have "?u / 2 = pow2 (exponent ?a) / 2 ^ 53" using u by simp
  also have "\<dots> \<le> ?a / 2 ^ 53" using eb by (simp add: divide_right_mono)
  finally have bound: "?u / 2 \<le> ?a / 2 ^ 53" .
  have e1: "?r - ?a \<le> ?u / 2" using err by (rule abs_le_D1)
  have "?r \<le> ?a + ?a / 2 ^ 53" using e1 bound by linarith
  also have "\<dots> < 2 ^ 1023 + 2 ^ 1023" using assms(2) by (intro add_strict_mono) (auto simp: field_simps intro: less_trans)
  also have "\<dots> = pow2 1024" by (simp add: pow2_def)
  finally have noov: "\<not> pow2 1024 \<le> ?r" by simp
  show ?thesis
  proof (cases "0 < q")
    case True
    then have "round_to_double q = Num ?r" using q0 noov by (simp add: round_to_double_def Let_def)
    moreover have "\<bar>?r - q\<bar> \<le> \<bar>q\<bar> / 2 ^ 53" using err bound True by simp
    ultimately show ?thesis by blast
  next
    case False
    then have neg: "q < 0" using q0 by simp
    then have "round_to_double q = Num (- ?r)" using q0 noov by (simp add: round_to_double_def Let_def)
    moreover have "\<bar>- ?r - q\<bar> = \<bar>?r - ?a\<bar>" using neg by simp
    then have "\<bar>- ?r - q\<bar> \<le> \<bar>q\<bar> / 2 ^ 53" using err bound by simp
    ultimately show ?thesis by blast
  qed
qed

lemma round_to_double_int:
  assumes "\<bar>n\<bar> \<le> 2 ^ 53"
  shows "round_to_double (of_int n) = Num (of_int n)"
proof (cases "n = 0")
  case True
  then show ?thesis by (simp add: round_to_double_def)
next
  case False
  let ?a = "\<bar>rat_of_int n\<bar>"
  let ?e = "exponent ?a"
  let ?u = "pow2 (?e - 52)"
  have a1: "1 \<le> ?a" using False by (simp flip: of_int_abs)
  have a53: "?a \<le> 2 ^ 53"
  proof -
    have "rat_of_int \<bar>n\<bar> \<le> rat_of_int (2 ^ 53)" using assms by (simp only: of_int_le_iff)
    then show ?thesis by simp
  qed
  have a1024: "?a < 2 ^ 1024" using a53 by (rule le_less_trans) simp
  have eb: "pow2 ?e \<le> ?a" "0 \<le> ?e"
    using exp_up_bounds [OF a1 a1024] a1 by (simp_all add: exponent_def)
  have "pow2 ?e = 2 ^ nat ?e" using eb(2) by (simp add: pow2_def)
  then have "(2::rat) ^ nat ?e \<le> 2 ^ 53" using eb(1) a53 by (simp only:)
  then have "nat ?e \<le> 53" by (rule power_le_imp_le_exp [rotated]) simp
  then have e53: "?e \<le> 53" by simp
  have upos: "0 < ?u" by (rule pow2_pos)
  have "\<exists>z. ?a / ?u = rat_of_int z"
  proof (cases "?e \<le> 52")
    case True
    have "pow2 ((?e - 52) + int (nat (52 - ?e))) = 2 ^ nat (52 - ?e) * ?u"
      by (rule pow2_add_nat)
    moreover have "(?e - 52) + int (nat (52 - ?e)) = 0" using True by simp
    ultimately have "1 = 2 ^ nat (52 - ?e) * ?u" by (simp add: pow2_def)
    then have "?a / ?u = ?a * 2 ^ nat (52 - ?e)" using upos by (simp add: field_simps)
    also have "\<dots> = rat_of_int (\<bar>n\<bar> * 2 ^ nat (52 - ?e))" by simp
    finally show ?thesis by blast
  next
    case False
    then have e: "?e = 53" using e53 by simp
    then have "?a = 2 ^ 53" using eb(1) a53 by (simp add: pow2_def)
    moreover have "?u = 2" using e by (simp add: pow2_def)
    ultimately have "?a / ?u = rat_of_int (2 ^ 52)" by simp
    then show ?thesis by blast
  qed
  then obtain z where z: "?a / ?u = rat_of_int z" by blast
  have "round_half_even (?a / ?u) = z" unfolding z by (rule round_half_even_int)
  moreover have "rat_of_int z * ?u = ?a" using z upos by (simp add: field_simps)
  ultimately have r: "of_int (round_half_even (?a / ?u)) * ?u = ?a" by simp
  have noov: "\<not> pow2 1024 \<le> ?a" using a1024 by (simp add: pow2_def)
  have n0: "rat_of_int n \<noteq> 0" using False by simp
  show ?thesis
    unfolding round_to_double_def Let_def r
    using n0 noov by (auto simp: not_less abs_if)
qed

lemma quotient_floor:
  assumes g: "0 < g" "g \<le> 2 ^ 53" and x: "\<bar>x\<bar> \<le> 2 ^ 53" "\<bar>x\<bar> < 2 ^ 53 \<or> g dvd x"
  shows "\<exists>r. round_to_double (rat_of_int x / rat_of_int g) = Num r \<and> \<lfloor>r\<rfloor> = x div g"
proof (cases "g dvd x")
  case True
  then obtain k where k: "x = g * k" by (rule dvdE)
  have "\<bar>k\<bar> \<le> \<bar>g\<bar> * \<bar>k\<bar>" using g(1) by (simp add: mult_le_cancel_right1)
  then have "\<bar>k\<bar> \<le> 2 ^ 53" using x(1) k by (simp add: abs_mult)
  then have "round_to_double (rat_of_int k) = Num (rat_of_int k)" by (rule round_to_double_int)
  moreover have "rat_of_int x / rat_of_int g = rat_of_int k" using k g(1) by simp
  moreover have "x div g = k" using k g(1) by simp
  ultimately show ?thesis by simp
next
  case False
  let ?q = "rat_of_int x / rat_of_int g"
  let ?k = "x div g"
  have xs: "\<bar>x\<bar> < 2 ^ 53" using x(2) False by simp
  have x0: "x \<noteq> 0" using False by auto
  have gr: "0 < rat_of_int g" using g(1) by simp
  have "x mod g \<noteq> 0" using False by (simp add: dvd_eq_mod_eq_0)
  moreover have "0 \<le> x mod g" using g(1) by (rule pos_mod_sign)
  ultimately have m1': "0 < x mod g" by simp
  have m2': "x mod g < g" using g(1) by (rule pos_mod_bound)
  note m = m1' m2'
  have "rat_of_int x = rat_of_int (?k * g + x mod g)" by simp
  then have xeq: "rat_of_int x = rat_of_int ?k * rat_of_int g + rat_of_int (x mod g)"
    by (simp only: of_int_add of_int_mult)
  have qeq: "?q = rat_of_int ?k + rat_of_int (x mod g) / rat_of_int g"
    using gr by (simp add: xeq field_simps)
  have m1: "1 \<le> rat_of_int (x mod g)" using m(1) by simp
  have "x mod g \<le> g - 1" using m(2) by simp
  then have "rat_of_int (x mod g) \<le> rat_of_int (g - 1)" by (simp only: of_int_le_iff)
  then have m2: "rat_of_int (x mod g) \<le> rat_of_int g - 1" by simp
  have lo: "rat_of_int ?k + 1 / rat_of_int g \<le> ?q"
    unfolding qeq using m1 gr by (simp add: divide_right_mono)
  have "rat_of_int (x mod g) / rat_of_int g \<le> (rat_of_int g - 1) / rat_of_int g"
    using m2 gr by (simp add: divide_right_mono)
  also have "\<dots> = 1 - 1 / rat_of_int g" using gr by (simp add: field_simps)
  finally have hi: "?q \<le> rat_of_int ?k + 1 - 1 / rat_of_int g" unfolding qeq by simp
  have absq: "\<bar>?q\<bar> = rat_of_int \<bar>x\<bar> / rat_of_int g" using gr by simp
  have xa1: "1 \<le> rat_of_int \<bar>x\<bar>" using x0 by simp
  have xa53: "rat_of_int \<bar>x\<bar> < 2 ^ 53"
  proof -
    have "rat_of_int \<bar>x\<bar> < rat_of_int (2 ^ 53)" using xs by (simp only: of_int_less_iff)
    then show ?thesis by simp
  qed
  have g53: "rat_of_int g \<le> 2 ^ 53"
  proof -
    have "rat_of_int g \<le> rat_of_int (2 ^ 53)" using g(2) by (simp only: of_int_le_iff)
    then show ?thesis by simp
  qed
  have "1 / 2 ^ 53 \<le> 1 / rat_of_int g" using g53 gr by (simp add: frac_le)
  also have "\<dots> \<le> \<bar>?q\<bar>" unfolding absq using xa1 gr by (simp add: divide_right_mono)
  finally have lowq: "1 / 2 ^ 53 \<le> \<bar>?q\<bar>" .
  have low: "1 / 2 ^ 1022 \<le> \<bar>?q\<bar>"
    by (rule order_trans [OF _ lowq]) simp
  have g1: "1 \<le> rat_of_int g" using g(1) by simp
  have "rat_of_int \<bar>x\<bar> / rat_of_int g \<le> rat_of_int \<bar>x\<bar> / 1"
    using g1 xa1 by (intro divide_left_mono) simp_all
  then have "\<bar>?q\<bar> \<le> rat_of_int \<bar>x\<bar>" unfolding absq by simp
  then have upq: "\<bar>?q\<bar> < 2 ^ 53" using xa53 by simp
  have up: "\<bar>?q\<bar> < 2 ^ 1023" by (rule less_trans [OF upq]) simp
  obtain r where r: "round_to_double ?q = Num r" "\<bar>r - ?q\<bar> \<le> \<bar>?q\<bar> / 2 ^ 53"
    using round_to_double_err [OF low up] by blast
  have "\<bar>?q\<bar> / 2 ^ 53 < 1 / rat_of_int g"
    unfolding absq using xa53 gr by (simp add: field_simps)
  with r(2) have close: "\<bar>r - ?q\<bar> < 1 / rat_of_int g" by simp
  have "rat_of_int ?k < r" using close lo by (simp add: abs_less_iff)
  moreover have "r < rat_of_int ?k + 1" using close hi by (simp add: abs_less_iff)
  ultimately have "\<lfloor>r\<rfloor> = ?k" by (simp add: floor_unique)
  with r(1) show ?thesis by blast
qed

lemma roundMs_exact:
  assumes g: "0 < g" "g \<le> 2 ^ 53" and x: "\<bar>x\<bar> \<le> 2 ^ 53" "\<bar>x\<bar> < 2 ^ 53 \<or> g dvd x"
    and p: "\<bar>x div g * g\<bar> \<le> 2 ^ 53"
  shows "roundMs (Num (of_int x)) (Num (of_int g)) = Num (of_int (x div g * g))"
proof -
  obtain r where r: "round_to_double (rat_of_int x / rat_of_int g) = Num r" "\<lfloor>r\<rfloor> = x div g"
    using quotient_floor [OF g x] by blast
  have "round_to_double (rat_of_int (x div g * g)) = Num (rat_of_int (x div g * g))"
    using p by (rule round_to_double_int)
  then show ?thesis
    using g(1) r by (simp add: roundMs_def falsy_def le_zero_def)
qed

lemma roundMs_safe:
  assumes "0 < g" and "\<bar>x\<bar> + g \<le> 2 ^ 53"
  shows "roundMs (Num (of_int x)) (Num (of_int g)) = Num (of_int (x div g * g))"
    and "roundMs (Num (of_int (x div g * g))) (Num (of_int g)) = Num (of_int (x div g * g))"
proof -
  have m: "0 \<le> x mod g" "x mod g < g" using assms(1) by simp_all
  have eq: "x div g * g = x - x mod g" by (simp add: minus_mod_eq_div_mult)
  have p: "\<bar>x div g * g\<bar> \<le> 2 ^ 53" unfolding eq using m assms(2) by arith
  have g53: "g \<le> 2 ^ 53" using assms by simp
  have xs: "\<bar>x\<bar> < 2 ^ 53" using assms by simp
  show "roundMs (Num (of_int x)) (Num (of_int g)) = Num (of_int (x div g * g))"
    using assms(1) g53 _ _ p by (rule roundMs_exact) (use xs in simp_all)
  have "roundMs (Num (of_int (x div g * g))) (Num (of_int g))
          = Num (of_int ((x div g * g) div g * g))"
    using assms(1) g53 p by (rule roundMs_exact) (use assms(1) p in simp_all)
  then show "roundMs (Num (of_int (x div g * g))) (Num (of_int g)) = Num (of_int (x div g * g))"
    using assms(1) by simp
qed

lemma pow2_mono: "e \<le> e' \<Longrightarrow> pow2 e \<le> pow2 e'"
proof -
  assume "e \<le> e'"
  then have "e' = e + int (nat (e' - e))" by simp
  then have "pow2 e' = 2 ^ nat (e' - e) * pow2 e" using pow2_add_nat [of e "nat (e' - e)"] by simp
  moreover have "(1::rat) \<le> 2 ^ nat (e' - e)" by simp
  ultimately show ?thesis using pow2_pos [of e] by (simp add: mult_le_cancel_right1)
qed

lemma exponent_eqI:
  assumes "pow2 e \<le> a" and "a < 2 * pow2 e" and "- 1022 \<le> e" and "e \<le> 1023"
  shows "exponent a = e"
proof -
  have "pow2 (- 1022) \<le> pow2 e" using assms(3) by (rule pow2_mono)
  then have lo: "1 / 2 ^ 1022 \<le> a" using assms(1) by (simp add: pow2_def)
  have "pow2 (e + 1) \<le> pow2 1024" using assms(4) by (intro pow2_mono) simp
  moreover have "a < pow2 (e + 1)" using assms(2) by (simp add: pow2_add1)
  ultimately have "a < pow2 1024" by (rule less_le_trans [rotated])
  then have hi: "a < 2 ^ 1024" by (simp add: pow2_def)
  have b: "pow2 (exponent a) \<le> a" "a < 2 * pow2 (exponent a)"
    using exponent_bounds [OF lo hi] by simp_all
  show ?thesis
  proof (rule ccontr)
    assume "exponent a \<noteq> e"
    then consider "exponent a + 1 \<le> e" | "e + 1 \<le> exponent a" by linarith
    then show False
    proof cases
      case 1
      then have "pow2 (exponent a + 1) \<le> pow2 e" by (rule pow2_mono)
      then show False using b(2) assms(1) by (simp add: pow2_add1)
    next
      case 2
      then have "pow2 (e + 1) \<le> pow2 (exponent a)" by (rule pow2_mono)
      then show False using b(1) assms(2) by (simp add: pow2_add1)
    qed
  qed
qed

lemma round_half_even_near:
  assumes "\<bar>x - of_int m\<bar> < 1 / 2"
  shows "round_half_even x = m"
proof (cases "of_int m \<le> x")
  case True
  then have "\<lfloor>x\<rfloor> = m" using assms by (intro floor_unique) (simp_all add: abs_less_iff)
  then show ?thesis using assms True by (simp add: round_half_even_def abs_less_iff)
next
  case False
  then have "\<lfloor>x\<rfloor> = m - 1" using assms by (intro floor_unique) (simp_all add: abs_less_iff)
  then show ?thesis using assms False by (simp add: round_half_even_def abs_less_iff)
qed

lemma round_to_double_eval:
  assumes "0 < q" and "pow2 e \<le> q" and "q < 2 * pow2 e" and "- 1022 \<le> e" and "e \<le> 1023"
    and "\<bar>q / pow2 (e - 52) - of_int m\<bar> < 1 / 2" and "of_int m * pow2 (e - 52) = r"
    and "r < pow2 1024"
  shows "round_to_double q = Num r"
proof -
  have "exponent \<bar>q\<bar> = e" using assms(1-5) by (intro exponent_eqI) simp_all
  moreover have "round_half_even (q / pow2 (e - 52)) = m" using assms(6) by (rule round_half_even_near)
  ultimately show ?thesis using assms(1,7,8) by (simp add: round_to_double_def Let_def)
qed

lemmas double_simps = three_tenths_def pow2_def

lemma three_tenths_double: "round_to_double three_tenths = Num three_tenths"
  by (rule round_to_double_eval [where e = "- 2" and m = 5404319552844595])
     (simp_all add: double_simps)

lemma divide_67: "round_to_double (67 / three_tenths) = Num (7857843099839147 / 35184372088832)"
  by (rule round_to_double_eval [where e = 7 and m = 7857843099839147])
     (simp_all add: double_simps)

lemma times_223: "round_to_double (223 * three_tenths) = Num (4707668985485721 / 70368744177664)"
  by (rule round_to_double_eval [where e = 6 and m = 4707668985485721])
     (simp_all add: double_simps)

lemma divide_66_9: "round_to_double (4707668985485721 / 70368744177664 / three_tenths)
               = Num (7846114975809535 / 35184372088832)"
  by (rule round_to_double_eval [where e = 7 and m = 7846114975809535])
     (simp_all add: double_simps)

lemma times_222: "round_to_double (222 * three_tenths) = Num (2343279181116211 / 35184372088832)"
  by (rule round_to_double_eval [where e = 6 and m = 4686558362232422])
     (simp_all add: double_simps)

lemma divide_1e21: "round_to_double (10 ^ 21 / 7) = Num 142857142857142861824"
  by (rule round_to_double_eval [where e = 66 and m = 8719308035714286])
     (simp_all add: double_simps)

lemma times_7: "round_to_double (142857142857142861824 * 7) = Num (10 ^ 21)"
  by (rule round_to_double_eval [where e = 69 and m = 7629394531250000])
     (simp_all add: double_simps)

lemma three_tenths_pos: "0 < three_tenths" "three_tenths \<noteq> 0" "\<not> three_tenths \<le> 0"
  by (simp_all add: three_tenths_def)

lemma roundMs_67: "roundMs (Num 67) (Num three_tenths) = Num (4707668985485721 / 70368744177664)"
proof -
  have f: "\<lfloor>7857843099839147 / 35184372088832 :: rat\<rfloor> = 223"
    by (rule floor_unique) simp_all
  show ?thesis
    by (simp add: roundMs_def falsy_def le_zero_def three_tenths_pos divide_67 f times_223)
qed

lemma roundMs_66_9: "roundMs (Num (4707668985485721 / 70368744177664)) (Num three_tenths)
              = Num (2343279181116211 / 35184372088832)"
proof -
  have f: "\<lfloor>7846114975809535 / 35184372088832 :: rat\<rfloor> = 222"
    by (rule floor_unique) simp_all
  have d: "js_divide (Num (4707668985485721 / 70368744177664)) (Num three_tenths)
             = Num (7846114975809535 / 35184372088832)"
    using divide_66_9 three_tenths_pos(2) by (simp only: js_divide.simps if_False)
  show ?thesis
    unfolding roundMs_def d
    by (simp add: falsy_def le_zero_def three_tenths_pos f times_222)
qed

lemma roundMs_1e21: "roundMs (Num (10 ^ 21)) (Num 7) = Num (10 ^ 21)"
  using divide_1e21 times_7 by (simp add: roundMs_def falsy_def le_zero_def)

lemma roundMs_int_div:
  "roundMs_int ms g = (if g \<le> 0 then ms else ms div g * g)"
  by (simp add: roundMs_int_def floor_divide_of_int_eq)

lemma roundMs_passthrough:
  "falsy g \<or> le_zero g \<Longrightarrow> roundMs ms g = ms"
  by (simp add: roundMs_def)

text \<open>
  Claim C9, as amended. For every number \<open>ms\<close>, a granularity that is \<^verbatim>\<open>0\<close>, \<^verbatim>\<open>NaN\<close> or
  negative passes \<open>ms\<close> through unchanged, and there \<open>roundMs\<close> is idempotent. For
  integers \<open>x\<close> and \<open>n > 0\<close> with \<open>\<bar>x\<bar> + n \<le> 2^53\<close> (a range that holds every
  difference of two clock readings and every granularity the settings dialog stores),
  the doubles computed by \<^verbatim>\<open>roundMs(x, n)\<close> are exact: the result is \<open>\<lfloor>x / n\<rfloor> * n\<close>, applying
  \<open>roundMs\<close> again gives the same result, and \<open>roundMs_int\<close> is that result.
\<close>

theorem roundMs_safe_integers:
  "(falsy g \<or> le_zero g \<longrightarrow> roundMs ms g = ms \<and> roundMs (roundMs ms g) g = roundMs ms g)
   \<and> (n \<le> 0 \<longrightarrow> roundMs (Num (of_int x)) (Num (of_int n)) = Num (of_int x))
   \<and> (0 < n \<and> \<bar>x\<bar> + n \<le> 2 ^ 53 \<longrightarrow>
         roundMs (Num (of_int x)) (Num (of_int n))
           = Num (of_int (\<lfloor>real_of_int x / real_of_int n\<rfloor> * n))
       \<and> roundMs (roundMs (Num (of_int x)) (Num (of_int n))) (Num (of_int n))
           = roundMs (Num (of_int x)) (Num (of_int n))
       \<and> roundMs (Num (of_int x)) (Num (of_int n)) = Num (of_int (roundMs_int x n)))"
proof (intro conjI impI)
  assume a: "falsy g \<or> le_zero g"
  then show "roundMs ms g = ms" by (rule roundMs_passthrough)
  from a show "roundMs (roundMs ms g) g = roundMs ms g" by (simp add: roundMs_passthrough)
next
  assume "n \<le> 0"
  then have "falsy (Num (rat_of_int n)) \<or> le_zero (Num (rat_of_int n))"
    by (simp add: le_zero_def)
  then show "roundMs (Num (of_int x)) (Num (of_int n)) = Num (of_int x)"
    by (rule roundMs_passthrough)
next
  assume a: "0 < n \<and> \<bar>x\<bar> + n \<le> 2 ^ 53"
  then have n: "0 < n" and r: "\<bar>x\<bar> + n \<le> 2 ^ 53" by simp_all
  have fl: "\<lfloor>real_of_int x / real_of_int n\<rfloor> * n = x div n * n"
    by (simp add: floor_divide_of_int_eq)
  show "roundMs (Num (of_int x)) (Num (of_int n))
          = Num (of_int (\<lfloor>real_of_int x / real_of_int n\<rfloor> * n))"
    unfolding fl using n r by (rule roundMs_safe(1))
  show "roundMs (roundMs (Num (of_int x)) (Num (of_int n))) (Num (of_int n))
          = roundMs (Num (of_int x)) (Num (of_int n))"
    unfolding roundMs_safe(1) [OF n r] using n r by (rule roundMs_safe(2))
  show "roundMs (Num (of_int x)) (Num (of_int n)) = Num (of_int (roundMs_int x n))"
    unfolding roundMs_safe(1) [OF n r] using n by (simp add: roundMs_int_div)
qed

theorem roundMs_safe_integers_witness:
  "roundMs (Num 5500) (Num 1000) = Num 5000
   \<and> roundMs (roundMs (Num 5500) (Num 1000)) (Num 1000) = Num 5000
   \<and> roundMs_int 5500 1000 = 5000
   \<and> roundMs (Num 999) (Num 0) = Num 999
   \<and> roundMs (Num 999) NaN = Num 999
   \<and> roundMs (Num 999) (Num (- 5)) = Num 999"
proof -
  have a: "(0::int) < 1000 \<and> \<bar>5500\<bar> + 1000 \<le> (2::int) ^ 53" by simp
  have f: "\<lfloor>real_of_int 5500 / real_of_int 1000\<rfloor> * 1000 = (5000::int)"
    by (simp add: floor_divide_of_int_eq)
  have z: "falsy (Num 0) \<or> le_zero (Num 0)" "falsy NaN \<or> le_zero NaN"
    by (simp_all add: falsy_def)
  have m: "(- 5::int) \<le> 0" by simp
  note t = roundMs_safe_integers [where x = 5500 and n = 1000, THEN conjunct2, THEN conjunct2,
      rule_format, OF a]
  have t1: "roundMs (Num 5500) (Num 1000) = Num 5000"
    using t [THEN conjunct1] f by simp
  have t2: "roundMs (roundMs (Num 5500) (Num 1000)) (Num 1000) = Num 5000"
    using t [THEN conjunct2, THEN conjunct1] t1 by simp
  have "Num (rat_of_int 5000) = Num (rat_of_int (roundMs_int 5500 1000))"
    using t [THEN conjunct2, THEN conjunct2] t1 by simp
  then have t3: "roundMs_int 5500 1000 = 5000"
    by (simp only: number.inject of_int_eq_iff)
  note c1 = t1 t2 t3
  have c2: "roundMs (Num 999) (Num 0) = Num 999"
    using roundMs_safe_integers [where g = "Num 0" and ms = "Num 999"] z(1) by blast
  have c3: "roundMs (Num 999) NaN = Num 999"
    using roundMs_safe_integers [where g = NaN and ms = "Num 999"] z(2) by blast
  have c4: "roundMs (Num (of_int 999)) (Num (of_int (- 5))) = Num (of_int 999)"
    using roundMs_safe_integers [where x = 999 and n = "- 5"] m by blast
  show ?thesis using c1 c2 c3 c4 by simp
qed

text \<open>
  The claim as first stated (for all \<open>x\<close> and \<open>g\<close>) fails on doubles. With the granularity
  \<^verbatim>\<open>0.3\<close>, which \<^verbatim>\<open>getSettings\<close> passes through, \<^verbatim>\<open>roundMs(67, 0.3)\<close> is
  \<^verbatim>\<open>66.89999999999999\<close> and rounding that again gives \<^verbatim>\<open>66.6\<close>; and \<^verbatim>\<open>roundMs(1e21, 7)\<close>
  is \<^verbatim>\<open>1e21\<close>, not \<open>\<lfloor>10^21 / 7\<rfloor> * 7 = 999999999999999999994\<close>.
\<close>

theorem roundMs_double_counterexample:
  "round_to_double three_tenths = Num three_tenths
   \<and> roundMs (Num 67) (Num three_tenths) = Num (4707668985485721 / 70368744177664)
   \<and> roundMs (roundMs (Num 67) (Num three_tenths)) (Num three_tenths)
       = Num (2343279181116211 / 35184372088832)
   \<and> roundMs (roundMs (Num 67) (Num three_tenths)) (Num three_tenths)
       \<noteq> roundMs (Num 67) (Num three_tenths)
   \<and> round_to_double (10 ^ 21) = Num (10 ^ 21)
   \<and> roundMs (Num (10 ^ 21)) (Num 7) = Num (10 ^ 21)
   \<and> roundMs (Num (10 ^ 21)) (Num 7)
       \<noteq> Num (of_int (\<lfloor>real_of_int (10 ^ 21) / real_of_int 7\<rfloor> * 7))"
proof -
  have big: "round_to_double (10 ^ 21) = Num (10 ^ 21)"
    by (rule round_to_double_eval [where e = 69 and m = 7629394531250000])
       (simp_all add: double_simps)
  have fl: "\<lfloor>real_of_int (10 ^ 21) / real_of_int 7\<rfloor> * 7 = (999999999999999999994::int)"
    by (simp add: floor_divide_of_int_eq)
  have idem: "roundMs (roundMs (Num 67) (Num three_tenths)) (Num three_tenths)
                = Num (2343279181116211 / 35184372088832)"
    unfolding roundMs_67 by (rule roundMs_66_9)
  have ne1: "roundMs (roundMs (Num 67) (Num three_tenths)) (Num three_tenths)
               \<noteq> roundMs (Num 67) (Num three_tenths)"
    unfolding roundMs_67 roundMs_66_9 by simp
  have ne2: "roundMs (Num (10 ^ 21)) (Num 7)
               \<noteq> Num (of_int (\<lfloor>real_of_int (10 ^ 21) / real_of_int 7\<rfloor> * 7))"
    unfolding fl roundMs_1e21 by simp
  show ?thesis
    by (intro conjI three_tenths_double roundMs_67 idem ne1 big roundMs_1e21 ne2)
qed

subsection \<open>Domain classification\<close>

lemma startsWith_prefix: "startsWith s p = prefix p s"
  by (induction s p rule: startsWith.induct) auto

lemma replace_www_eq: "replace_www h = (if prefix ''www.'' h then drop 4 h else h)"
  by (simp add: replace_www_def startsWith_prefix)

text \<open>
  Claim C8, as amended. For every URL string and every behaviour \<open>P\<close> of the URL parser:
  the empty string and the URLs starting with \<^verbatim>\<open>chrome://\<close>, \<^verbatim>\<open>chrome-extension://\<close>,
  \<^verbatim>\<open>edge://\<close> or \<^verbatim>\<open>about:\<close> give \<^verbatim>\<open>null\<close>; so does a URL that fails to parse; every
  other URL gives its hostname with one leading \<^verbatim>\<open>www.\<close> removed, except that \<^verbatim>\<open>null\<close> is
  returned when nothing is left of the hostname. With the hostnames the URL standard
  gives, the four examples of the specification follow.
\<close>

theorem hostnameFromUrl_classification:
  "(url = [] \<or> prefix ''chrome://'' url \<or> prefix ''chrome-extension://'' url
      \<or> prefix ''edge://'' url \<or> prefix ''about:'' url
      \<longrightarrow> hostnameFromUrl P url = None)
   \<and> (P url = None \<longrightarrow> hostnameFromUrl P url = None)
   \<and> (url \<noteq> [] \<and> \<not> prefix ''chrome://'' url \<and> \<not> prefix ''chrome-extension://'' url
       \<and> \<not> prefix ''edge://'' url \<and> \<not> prefix ''about:'' url \<and> P url = Some h
      \<longrightarrow> hostnameFromUrl P url =
            (if prefix ''www.'' h
             then (if drop 4 h = [] then None else Some (drop 4 h))
             else (if h = [] then None else Some h)))
   \<and> (P ''https://www.youtube.com/watch?v=1'' = Some ''www.youtube.com''
      \<longrightarrow> hostnameFromUrl P ''https://www.youtube.com/watch?v=1'' = Some ''youtube.com'')
   \<and> (P ''https://github.com/foo'' = Some ''github.com''
      \<longrightarrow> hostnameFromUrl P ''https://github.com/foo'' = Some ''github.com'')
   \<and> hostnameFromUrl P ''chrome://extensions'' = None
   \<and> hostnameFromUrl P [] = None"
  by (simp add: hostnameFromUrl_def startsWith_prefix replace_www_eq Let_def)

theorem hostnameFromUrl_classification_witness:
  "hostnameFromUrl URL_sample ''https://www.youtube.com/watch?v=1'' = Some ''youtube.com''
   \<and> hostnameFromUrl URL_sample ''https://github.com/foo'' = Some ''github.com''
   \<and> hostnameFromUrl URL_sample ''chrome://extensions'' = None
   \<and> hostnameFromUrl URL_sample ''about:blank'' = None
   \<and> hostnameFromUrl URL_sample ''not a url'' = None
   \<and> hostnameFromUrl URL_sample ''http://www./'' = None"
  using hostnameFromUrl_classification [of "''https://www.youtube.com/watch?v=1''" URL_sample "''www.youtube.com''"]
        hostnameFromUrl_classification [of "''https://github.com/foo''" URL_sample "''github.com''"]
        hostnameFromUrl_classification [of "''about:blank''" URL_sample]
        hostnameFromUrl_classification [of "''not a url''" URL_sample]
        hostnameFromUrl_classification [of "''http://www./''" URL_sample "''www.''"]
  by (simp add: URL_sample_def)

text \<open>
  The claim as first stated (every URL that is not internal and parses returns its
  stripped hostname) fails for a URL whose hostname is empty, such as a \<^verbatim>\<open>file:\<close> URL:
  the parser succeeds with hostname \<^verbatim>\<open>''\<close>, and \<^verbatim>\<open>'' || null\<close> is \<^verbatim>\<open>null\<close>.
\<close>

theorem hostnameFromUrl_empty_hostname_counterexample:
  "''file:///tmp/notes.html'' \<noteq> []
   \<and> \<not> prefix ''chrome://'' ''file:///tmp/notes.html''
   \<and> \<not> prefix ''chrome-extension://'' ''file:///tmp/notes.html''
   \<and> \<not> prefix ''edge://'' ''file:///tmp/notes.html''
   \<and> \<not> prefix ''about:'' ''file:///tmp/notes.html''
   \<and> URL_sample ''file:///tmp/notes.html'' = Some []
   \<and> replace_www [] = []
   \<and> hostnameFromUrl URL_sample ''file:///tmp/notes.html'' \<noteq> Some (replace_www [])"
  by (simp add: hostnameFromUrl_def URL_sample_def replace_www_def)

subsection \<open>Settings\<close>

lemmas getSettings_defs =
  getSettings_js_def getSettings_def returned_field_def settings_s_def DEFAULT_GRANULARITY_MS_def

lemma default_settings:
  "getSettings None = \<lparr> excludeDomains = [], timeGranularityMs = 1000, keepIncognitoData = False \<rparr>"
  by (simp add: getSettings_defs)

lemma excluding_settings:
  "getSettings (Some (JObj [(''excludeDomains'', JArr [JStr ''github.com''])]))
     = \<lparr> excludeDomains = [JStr ''github.com''], timeGranularityMs = 1000,
         keepIncognitoData = False \<rparr>"
  by (simp add: getSettings_defs)

text \<open>
  Claim C10. \<open>getSettings\<close> is total over every stored value: the value \<^verbatim>\<open>s\<close> whose fields
  it reads is never \<^verbatim>\<open>null\<close> (it is truthy), so no read throws, and the call returns an
  object with an array \<^verbatim>\<open>excludeDomains\<close>, a number \<^verbatim>\<open>timeGranularityMs\<close> and a boolean
  \<^verbatim>\<open>keepIncognitoData\<close>, which are the fields of the typed record the tracker reads. A
  stored value that is missing or is not an object (\<^verbatim>\<open>null\<close> included) gives the defaults
  \<open>[]\<close>, \<open>1000\<close>, \<open>False\<close>; in a stored object, a field of the wrong type gives that field's
  default, and \<^verbatim>\<open>keepIncognitoData\<close> is true exactly when it is stored as the boolean
  \<^verbatim>\<open>true\<close>.
\<close>

theorem getSettings_total_wellformed:
  "truthy (settings_s stored)
   \<and> getSettings_js stored =
      Inr (JObj [(''excludeDomains'', JArr (excludeDomains (getSettings stored))),
                 (''timeGranularityMs'', JNum (timeGranularityMs (getSettings stored))),
                 (''keepIncognitoData'', JBool (keepIncognitoData (getSettings stored)))])
   \<and> ((\<forall>kvs. stored \<noteq> Some (JObj kvs)) \<longrightarrow>
         excludeDomains (getSettings stored) = []
       \<and> timeGranularityMs (getSettings stored) = 1000
       \<and> \<not> keepIncognitoData (getSettings stored))
   \<and> (\<forall>kvs. stored = Some (JObj kvs) \<longrightarrow>
         (\<forall>ys. map_of kvs ''excludeDomains'' = Some (JArr ys) \<longrightarrow>
               excludeDomains (getSettings stored) = ys)
       \<and> ((\<forall>ys. map_of kvs ''excludeDomains'' \<noteq> Some (JArr ys)) \<longrightarrow>
               excludeDomains (getSettings stored) = [])
       \<and> (\<forall>m. map_of kvs ''timeGranularityMs'' = Some (JNum m) \<longrightarrow>
               timeGranularityMs (getSettings stored) = m)
       \<and> ((\<forall>m. map_of kvs ''timeGranularityMs'' \<noteq> Some (JNum m)) \<longrightarrow>
               timeGranularityMs (getSettings stored) = 1000)
       \<and> (keepIncognitoData (getSettings stored)
            \<longleftrightarrow> map_of kvs ''keepIncognitoData'' = Some (JBool True)))"
proof (cases stored)
  case None
  then show ?thesis by (simp add: getSettings_defs)
next
  case (Some v)
  show ?thesis
  proof (cases v)
    case (JObj kvs)
    with Some show ?thesis
      by (simp add: getSettings_defs split: option.split jsval.split)
  qed (use Some in \<open>simp_all add: getSettings_defs\<close>)
qed

theorem getSettings_total_wellformed_witness:
  "property JNull ExcludeDomains = Inl TypeError
   \<and> getSettings_js (Some JNull) =
       Inr (JObj [(''excludeDomains'', JArr []), (''timeGranularityMs'', JNum 1000),
                  (''keepIncognitoData'', JBool False)])
   \<and> getSettings (Some JNull) =
     \<lparr> excludeDomains = [], timeGranularityMs = 1000, keepIncognitoData = False \<rparr>
   \<and> getSettings (Some (JObj [(''excludeDomains'', JStr ''a.com''),
                                (''timeGranularityMs'', JStr ''5000''),
                                (''keepIncognitoData'', JNum 1)])) =
     \<lparr> excludeDomains = [], timeGranularityMs = 1000, keepIncognitoData = False \<rparr>
   \<and> getSettings (Some (JObj [(''excludeDomains'', JArr [JStr ''a.com'']),
                                (''timeGranularityMs'', JNum 5000),
                                (''keepIncognitoData'', JBool True)])) =
     \<lparr> excludeDomains = [JStr ''a.com''], timeGranularityMs = 5000, keepIncognitoData = True \<rparr>"
  using getSettings_total_wellformed [of "Some JNull"]
        getSettings_total_wellformed [of "Some (JObj [(''excludeDomains'', JStr ''a.com''),
                                (''timeGranularityMs'', JStr ''5000''),
                                (''keepIncognitoData'', JNum 1)])"]
        getSettings_total_wellformed [of "Some (JObj [(''excludeDomains'', JArr [JStr ''a.com'']),
                                (''timeGranularityMs'', JNum 5000),
                                (''keepIncognitoData'', JBool True)])"]
  by simp

subsection \<open>Day records\<close>

lemma inherited_github [simp]: "\<not> inherited ''github.com''"
  by (simp add: inherited_def Object_prototype_names_def)

lemma inherited_constructor [simp]: "inherited ''constructor''"
  by (simp add: inherited_def Object_prototype_names_def)

lemma inherited_null [simp]: "\<not> inherited ''null''"
  by (simp add: inherited_def Object_prototype_names_def)

lemmas day_defs = getDayData_def domain_ms_def touch_domain_def add_ms_def

lemma getDayData_upd_other: "k \<noteq> key \<Longrightarrow> getDayData (days(key \<mapsto> d)) k = getDayData days k"
  by (simp add: getDayData_def)

lemma getDayData_upd_same: "getDayData (days(key \<mapsto> d)) key = d"
  by (simp add: getDayData_def)

lemma timeline_touch_domain [simp]: "timeline (touch_domain d name) = timeline d"
  by (simp add: touch_domain_def split: option.split)

lemma timeline_add_ms [simp]: "timeline (add_ms d name n) = timeline d"
  by (simp add: add_ms_def split: option.split)

lemma domain_ms_timeline_upd [simp]: "domain_ms (d\<lparr> timeline := t \<rparr>) y = domain_ms d y"
  by (simp add: domain_ms_def)

lemma domain_ms_touch_domain [simp]: "domain_ms (touch_domain d name) y = domain_ms d y"
  by (simp add: touch_domain_def domain_ms_def split: option.split)


lemma domain_ms_touch_add:
  "domains d name \<noteq> None \<or> \<not> inherited name \<Longrightarrow>
   domain_ms (add_ms (touch_domain d name) name n) name = domain_ms d name + n"
  by (auto simp: add_ms_def touch_domain_def domain_ms_def split: option.split)

lemma inherited_touch_add:
  "domains d name = None \<Longrightarrow> inherited name \<Longrightarrow> add_ms (touch_domain d name) name n = d"
  by (simp add: add_ms_def touch_domain_def)

subsection \<open>Runs with nothing in between\<close>

lemma endSession_persist_eq:
  "endSession_persist now key c w =
     (let settings = getSettings (stored_settings w) in
      if \<not> shouldTrack (c_domain c) (excludeDomains settings) then w
      else if \<not> keepIncognitoData settings \<and> c_wasIncognito c then w\<lparr> pendingWrite := None \<rparr>
      else
        let increment = roundMs_int (now - (case c_persistedAt c of None \<Rightarrow> c_start c | Some p \<Rightarrow> p))
                                    (timeGranularityMs settings);
            d1 = touch_domain (getDayData (stored_days w) key) (c_domain c);
            d2 = (if increment > 0 then add_ms d1 (c_domain c) increment else d1);
            d3 = d2\<lparr> timeline := timeline d2 @
                       [\<lparr> b_start = c_start c, b_end = now, b_domain = c_domain c \<rparr>] \<rparr>
        in w\<lparr> stored_days := (stored_days w)(key \<mapsto> d3), currentSession := None,
               stored_pendingSession := None, pendingWrite := None \<rparr>)"
  by (simp add: endSession_persist_def endSession_run_def endSession_begin_def Let_def)

lemma persistRunningTotal_eq:
  "persistRunningTotal now key w =
     (case (lastDomain w, lastStartTimestamp w) of
        (Some dm, Some start) \<Rightarrow>
          (let settings = getSettings (stored_settings w) in
           if \<not> shouldTrack dm (excludeDomains settings) then
             w\<lparr> lastDomain := None, lastStartTimestamp := None, lastPersistedAt := None,
                lastTabId := None, currentSession := None \<rparr>
           else if \<not> keepIncognitoData settings \<and> lastTabIncognito w then w
           else
             let from = (case lastPersistedAt w of None \<Rightarrow> start | Some p \<Rightarrow> p);
                 delta = roundMs_int (now - from) (timeGranularityMs settings)
             in if delta \<le> 0 then w\<lparr> lastPersistedAt := Some now \<rparr>
                else
                  w\<lparr> stored_days := (stored_days w)
                         (key \<mapsto> add_ms (touch_domain (getDayData (stored_days w) key) dm) dm delta),
                     lastPersistedAt := Some now, pendingWrite := None \<rparr>)
      | _ \<Rightarrow> w)"
  by (simp add: persistRunningTotal_def persistRunningTotal_run_def persistRunningTotal_call_def
        property_name_def Let_def split: option.split)

subsection \<open>Sample states\<close>

lemma github_session_eq:
  "github_session =
     idle_state\<lparr> lastDomain := Some ''github.com'', lastStartTimestamp := Some 0,
       lastPersistedAt := Some 0, lastTabId := Some 1, lastTrackedWindowId := Some 10,
       currentSession := Some (''github.com'', 0),
       stored_pendingSession :=
         Some \<lparr> p_domain = Some ''github.com'', p_start = Some 0, p_persistedAt = Some 0,
                p_windowId = Some 10, p_wasIncognito = Some False \<rparr> \<rparr>"
  by (simp add: github_session_def startTracking_def idle_state_def sample_browser_def
        default_settings shouldTrack_def)

lemma incognito_session_eq:
  "incognito_session =
     idle_state\<lparr> lastDomain := Some ''github.com'', lastStartTimestamp := Some 0,
       lastPersistedAt := Some 0, lastTabId := Some 2, lastTabIncognito := True,
       lastTrackedWindowId := Some 20, incognitoWindowIds := {20},
       currentSession := Some (''github.com'', 0),
       stored_pendingSession :=
         Some \<lparr> p_domain = Some ''github.com'', p_start = Some 0, p_persistedAt = Some 0,
                p_windowId = Some 20, p_wasIncognito = Some True \<rparr> \<rparr>"
  by (simp add: incognito_session_def startTracking_def idle_state_def sample_browser_def
        default_settings shouldTrack_def)

lemma overlapping_session_eq:
  "overlapping_session =
     idle_state\<lparr> lastDomain := Some ''github.com'', lastStartTimestamp := Some 2000,
       lastPersistedAt := Some 2000, lastTabId := Some 1, lastTrackedWindowId := Some 10,
       pendingWrite := Some \<lparr> c_domain = ''github.com'', c_start = 0, c_persistedAt = Some 0,
                               c_wasIncognito = False \<rparr>,
       currentSession := Some (''github.com'', 2000),
       stored_pendingSession :=
         Some \<lparr> p_domain = Some ''github.com'', p_start = Some 2000, p_persistedAt = Some 2000,
                p_windowId = Some 10, p_wasIncognito = Some False \<rparr> \<rparr>"
  by (simp add: overlapping_session_def github_session_eq stopTracking_def endSession_claim_def
        session_locals_def startTracking_def idle_state_def sample_browser_def
        default_settings shouldTrack_def)


lemma constructor_session_eq:
  "constructor_session =
     idle_state\<lparr> lastDomain := Some ''constructor'', lastStartTimestamp := Some 0,
       lastPersistedAt := Some 0, lastTabId := Some 1, lastTrackedWindowId := Some 10,
       currentSession := Some (''constructor'', 0),
       stored_pendingSession :=
         Some \<lparr> p_domain = Some ''constructor'', p_start = Some 0, p_persistedAt = Some 0,
                p_windowId = Some 10, p_wasIncognito = Some False \<rparr> \<rparr>"
  by (simp add: constructor_session_def startTracking_def idle_state_def intranet_browser_def
        default_settings shouldTrack_def)

subsection \<open>The periodic flush\<close>

text \<open>
  Claim C1, evaluated on the code. With the default granularity of 1000 ms, a session
  started at \<open>t0 = 0\<close> and flushed at \<open>t0 + 500\<close> and at \<open>t0 + 1000\<close> adds nothing to the
  domain's total: each flush rounds the 500 ms since \<^verbatim>\<open>lastPersistedAt\<close> down to 0 and
  still advances \<^verbatim>\<open>lastPersistedAt\<close> to the current time, so the second flush no longer
  sees the first 500 ms. The claim expects one increment of 1000. A stop right after
  the second flush records the block from 0 to 1000 and still adds nothing, whereas
  flushes at \<open>t0 + 1000\<close> and \<open>t0 + 1500\<close> add 1000 once.
\<close>

theorem two_short_flushes_add_nothing:
  "timeGranularityMs (getSettings (stored_settings github_session)) = 1000
   \<and> lastStartTimestamp github_session = Some 0
   \<and> persistRunningTotal 500 ''2025-02-13'' github_session
       = github_session\<lparr> lastPersistedAt := Some 500 \<rparr>
   \<and> persistRunningTotal 1000 ''2025-02-13'' (persistRunningTotal 500 ''2025-02-13'' github_session)
       = github_session\<lparr> lastPersistedAt := Some 1000 \<rparr>
   \<and> domain_ms (getDayData (stored_days
         (flushes [(500, ''2025-02-13''), (1000, ''2025-02-13'')] github_session))
         ''2025-02-13'') ''github.com'' = 0
   \<and> domain_ms (getDayData (stored_days
         (flushes [(1000, ''2025-02-13''), (1500, ''2025-02-13'')] github_session))
         ''2025-02-13'') ''github.com'' = 1000
   \<and> domain_ms (getDayData (stored_days
         (stopTracking_await 1000 ''2025-02-13''
            (flushes [(500, ''2025-02-13''), (1000, ''2025-02-13'')] github_session)))
         ''2025-02-13'') ''github.com'' = 0
   \<and> timeline (getDayData (stored_days
         (stopTracking_await 1000 ''2025-02-13''
            (flushes [(500, ''2025-02-13''), (1000, ''2025-02-13'')] github_session)))
         ''2025-02-13'') = [\<lparr> b_start = 0, b_end = 1000, b_domain = ''github.com'' \<rparr>]"
  by (simp add: github_session_eq idle_state_def persistRunningTotal_eq default_settings
        shouldTrack_def roundMs_int_div day_defs stopTracking_await_def
        stopTracking_def endSession_claim_def session_locals_def settle_def
        endSession_persist_eq)












subsection \<open>The stop path\<close>

lemma stopTracking_fresh:
  "lastDomain w = Some d \<Longrightarrow> lastStartTimestamp w = Some s \<Longrightarrow> pendingWrite w = None \<Longrightarrow>
   stopTracking w =
     (Some \<lparr> c_domain = d, c_start = s, c_persistedAt = lastPersistedAt w,
             c_wasIncognito = lastTabIncognito w \<rparr>,
      w\<lparr> lastDomain := None, lastStartTimestamp := None, lastPersistedAt := None,
         lastTabId := None, lastTabIncognito := False, lastTrackedWindowId := None,
         pendingWrite := Some \<lparr> c_domain = d, c_start = s, c_persistedAt = lastPersistedAt w,
                                 c_wasIncognito = lastTabIncognito w \<rparr> \<rparr>)"
  by (simp add: stopTracking_def endSession_claim_def session_locals_def)

lemma stopTracking_no_session:
  "lastDomain w = None \<or> lastStartTimestamp w = None \<Longrightarrow> stopTracking w = (None, w)"
  by (auto simp: stopTracking_def split: option.splits)

lemma stopTracking_pending:
  "lastDomain w = Some d \<Longrightarrow> lastStartTimestamp w = Some s \<Longrightarrow> pendingWrite w = Some p \<Longrightarrow>
   stopTracking w = (Some p, w)"
  by (simp add: stopTracking_def)

lemma endSession_persist_timeline:
  "shouldTrack (c_domain c) (excludeDomains (getSettings (stored_settings w))) \<Longrightarrow>
   keepIncognitoData (getSettings (stored_settings w)) \<or> \<not> c_wasIncognito c \<Longrightarrow>
   timeline (getDayData (stored_days (endSession_persist now key c w)) k)
     = (if k = key
        then timeline (getDayData (stored_days w) key)
               @ [\<lparr> b_start = c_start c, b_end = now, b_domain = c_domain c \<rparr>]
        else timeline (getDayData (stored_days w) k))"
  by (auto simp: endSession_persist_eq Let_def getDayData_upd_same getDayData_upd_other)

lemma endSession_persist_total:
  "shouldTrack (c_domain c) (excludeDomains (getSettings (stored_settings w))) \<Longrightarrow>
   keepIncognitoData (getSettings (stored_settings w)) \<or> \<not> c_wasIncognito c \<Longrightarrow>
   domains (getDayData (stored_days w) key) (c_domain c) \<noteq> None \<or> \<not> inherited (c_domain c) \<Longrightarrow>
   domain_ms (getDayData (stored_days (endSession_persist now key c w)) key) (c_domain c)
     = domain_ms (getDayData (stored_days w) key) (c_domain c)
       + max 0 (roundMs_int (now - (case c_persistedAt c of None \<Rightarrow> c_start c | Some p \<Rightarrow> p))
                            (timeGranularityMs (getSettings (stored_settings w))))"
  by (auto simp: endSession_persist_eq Let_def getDayData_upd_same domain_ms_touch_add)

lemma endSession_persist_discard:
  "\<not> shouldTrack (c_domain c) (excludeDomains (getSettings (stored_settings w)))
   \<or> (\<not> keepIncognitoData (getSettings (stored_settings w)) \<and> c_wasIncognito c) \<Longrightarrow>
   endSession_persist now key c w = w \<or> endSession_persist now key c w = w\<lparr> pendingWrite := None \<rparr>"
  by (auto simp: endSession_persist_eq Let_def)

lemma endSession_persist_memory:
  "(endSession_persist now key c w)
     \<lparr> stored_days := stored_days w, currentSession := currentSession w,
       stored_pendingSession := stored_pendingSession w, pendingWrite := pendingWrite w \<rparr> = w"
  by (simp add: endSession_persist_eq Let_def)

lemma stopTracking_await_fresh:
  "lastDomain w = Some d \<Longrightarrow> lastStartTimestamp w = Some s \<Longrightarrow> pendingWrite w = None \<Longrightarrow>
   stopTracking_await now key w =
     settle now key
       \<lparr> c_domain = d, c_start = s, c_persistedAt = lastPersistedAt w,
         c_wasIncognito = lastTabIncognito w \<rparr>
       (snd (stopTracking w))"
  by (simp add: stopTracking_await_def stopTracking_fresh)

lemma settle_stored_days:
  "stored_days (settle now key c w) = stored_days (endSession_persist now key c w)"
  by (simp add: settle_def)

lemma endSession_persist_days_cong:
  "stored_settings w' = stored_settings w \<Longrightarrow> stored_days w' = stored_days w \<Longrightarrow>
   stored_days (endSession_persist now key c w') = stored_days (endSession_persist now key c w)"
  by (simp add: endSession_persist_eq Let_def)

lemma endSession_run_stop_again:
  "lastDomain w = None \<Longrightarrow> endSession_run stop_again now key c w = endSession_persist now key c w"
proof -
  have idle: "\<And>v. lastDomain v = None \<Longrightarrow> stop_again i v = v" for i
    by (simp add: stop_again_def stopTracking_no_session)
  assume n: "lastDomain w = None"
  show ?thesis
    by (simp add: endSession_run_def endSession_persist_def endSession_begin_def Let_def idle n)
qed

text \<open>
  Claim C3, evaluated on the code. The block is exact for every domain: a session on
  the hostname \<^verbatim>\<open>constructor\<close> started at 0 and stopped at 5000, or flushed at 30500 and
  60000 and stopped at 90500, gets one block from 0 to the time of the stop. Its
  counter gets nothing: \<^verbatim>\<open>day.domains["constructor"]\<close> finds the property every object
  inherits, so no entry \<^verbatim>\<open>{ ms: 0 }\<close> is made, the rounded increment of 5000 lands on the
  inherited object, and the day record that is stored has no total for the domain. The
  same runs on \<^verbatim>\<open>github.com\<close> store 5000 and 89000.
\<close>

theorem endSession_stores_no_total_for_constructor:
  "hostnameFromUrl (URL intranet_browser) ''http://constructor/'' = Some ''constructor''
   \<and> lastDomain constructor_session = Some ''constructor''
   \<and> lastStartTimestamp constructor_session = Some 0
   \<and> shouldTrack ''constructor''
        (excludeDomains (getSettings (stored_settings constructor_session)))
   \<and> roundMs_int (5000 - 0) (timeGranularityMs (getSettings (stored_settings constructor_session)))
       = 5000
   \<and> timeline (getDayData (stored_days
         (stopTracking_await 5000 ''2025-02-13'' constructor_session)) ''2025-02-13'')
       = [\<lparr> b_start = 0, b_end = 5000, b_domain = ''constructor'' \<rparr>]
   \<and> domains (getDayData (stored_days
         (stopTracking_await 5000 ''2025-02-13'' constructor_session)) ''2025-02-13'')
         ''constructor'' = None
   \<and> domain_ms (getDayData (stored_days
         (stopTracking_await 5000 ''2025-02-13'' constructor_session)) ''2025-02-13'')
         ''constructor'' = 0
   \<and> domain_ms (getDayData (stored_days
         (endSession None 5000 ''2025-02-13'' constructor_session)) ''2025-02-13'')
         ''constructor'' = 0
   \<and> timeline (getDayData (stored_days
         (stopTracking_await 5000 ''2025-02-13'' github_session)) ''2025-02-13'')
       = [\<lparr> b_start = 0, b_end = 5000, b_domain = ''github.com'' \<rparr>]
   \<and> domain_ms (getDayData (stored_days
         (stopTracking_await 5000 ''2025-02-13'' github_session)) ''2025-02-13'')
         ''github.com'' = 5000
   \<and> timeline (getDayData (stored_days
         (stopTracking_await 90500 ''2025-02-13''
            (flushes [(30500, ''2025-02-13''), (60000, ''2025-02-13'')] constructor_session)))
         ''2025-02-13'')
       = [\<lparr> b_start = 0, b_end = 90500, b_domain = ''constructor'' \<rparr>]
   \<and> domain_ms (getDayData (stored_days
         (stopTracking_await 90500 ''2025-02-13''
            (flushes [(30500, ''2025-02-13''), (60000, ''2025-02-13'')] constructor_session)))
         ''2025-02-13'') ''constructor'' = 0
   \<and> timeline (getDayData (stored_days
         (stopTracking_await 90500 ''2025-02-13''
            (flushes [(30500, ''2025-02-13''), (60000, ''2025-02-13'')] github_session)))
         ''2025-02-13'')
       = [\<lparr> b_start = 0, b_end = 90500, b_domain = ''github.com'' \<rparr>]
   \<and> domain_ms (getDayData (stored_days
         (stopTracking_await 90500 ''2025-02-13''
            (flushes [(30500, ''2025-02-13''), (60000, ''2025-02-13'')] github_session)))
         ''2025-02-13'') ''github.com'' = 89000"
  by (simp add: constructor_session_eq github_session_eq idle_state_def intranet_browser_def
        hostnameFromUrl_def replace_www_def persistRunningTotal_eq default_settings
        shouldTrack_def roundMs_int_div day_defs stopTracking_await_def stopTracking_def
        endSession_def endSession_claim_def session_locals_def settle_def endSession_persist_eq)

text \<open>
  Claim C2, as amended. \<^verbatim>\<open>stopTracking\<close> returns \<^verbatim>\<open>null\<close> and changes nothing when no
  session is active. With a session active and \<^verbatim>\<open>pendingWrite\<close> set (the stop of an
  earlier session still in flight) it returns that pending operation and changes
  nothing. Otherwise the call captures the session, clears it in memory and leaves the
  capture in \<^verbatim>\<open>pendingWrite\<close> before anything is persisted; so a second call made before
  the first completes, right away or at any \<^verbatim>\<open>await\<close> of the pending \<^verbatim>\<open>endSession\<close>, finds
  no session, returns \<^verbatim>\<open>null\<close>, starts nothing and changes nothing. When the pending
  operation completes at time \<open>now\<close>, a persisted session has gained exactly one timeline
  block \<open>(s, now)\<close>, and the total of its domain has grown once, by the rounded time
  since \<^verbatim>\<open>lastPersistedAt\<close> (since \<open>s\<close> when that is \<^verbatim>\<open>null\<close>) when that is positive: the
  time since the last flush, not the span from the start. The total is that of a domain
  that has an entry in the day record or is not the name of an inherited property. A
  discarded session has changed no stored day, and a further stop is again without
  effect.
\<close>

theorem stopTracking_idempotent_coalescing:
  "((lastDomain w = None \<or> lastStartTimestamp w = None) \<longrightarrow> stopTracking w = (None, w))
   \<and> (lastDomain w = Some d \<and> lastStartTimestamp w = Some s \<and> pendingWrite w = Some p
        \<longrightarrow> stopTracking w = (Some p, w))
   \<and> (lastDomain w = Some d \<and> lastStartTimestamp w = Some s \<and> pendingWrite w = None \<longrightarrow>
        (let c = \<lparr> c_domain = d, c_start = s, c_persistedAt = lastPersistedAt w,
                    c_wasIncognito = lastTabIncognito w \<rparr>;
             w1 = snd (stopTracking w);
             w2 = snd (stopTracking w1);
             w3 = settle_among stop_again now key c w2;
             persisted = (shouldTrack d (excludeDomains (getSettings (stored_settings w)))
                          \<and> (keepIncognitoData (getSettings (stored_settings w))
                               \<or> \<not> lastTabIncognito w));
             increment = roundMs_int (now - (case lastPersistedAt w of None \<Rightarrow> s | Some t \<Rightarrow> t))
                                     (timeGranularityMs (getSettings (stored_settings w)))
         in fst (stopTracking w) = Some c \<and> pendingWrite w1 = Some c
          \<and> lastDomain w1 = None \<and> lastStartTimestamp w1 = None
          \<and> stored_days w1 = stored_days w
          \<and> fst (stopTracking w1) = None \<and> w2 = w1
          \<and> w3 = settle now key c w1
          \<and> (persisted \<longrightarrow>
                timeline (getDayData (stored_days w3) key)
                  = timeline (getDayData (stored_days w) key)
                      @ [\<lparr> b_start = s, b_end = now, b_domain = d \<rparr>]
              \<and> (\<forall>k. k \<noteq> key \<longrightarrow> timeline (getDayData (stored_days w3) k)
                                     = timeline (getDayData (stored_days w) k))
              \<and> (domains (getDayData (stored_days w) key) d \<noteq> None \<or> \<not> inherited d \<longrightarrow>
                    domain_ms (getDayData (stored_days w3) key) d
                      = domain_ms (getDayData (stored_days w) key) d
                          + (if increment > 0 then increment else 0)))
          \<and> (\<not> persisted \<longrightarrow> stored_days w3 = stored_days w)
          \<and> pendingWrite w3 = None \<and> stopTracking w3 = (None, w3)))"
proof (intro conjI impI)
  assume "lastDomain w = None \<or> lastStartTimestamp w = None"
  then show "stopTracking w = (None, w)" by (rule stopTracking_no_session)
next
  assume "lastDomain w = Some d \<and> lastStartTimestamp w = Some s \<and> pendingWrite w = Some p"
  then show "stopTracking w = (Some p, w)" by (simp add: stopTracking_pending)
next
  assume a: "lastDomain w = Some d \<and> lastStartTimestamp w = Some s \<and> pendingWrite w = None"
  let ?c = "\<lparr> c_domain = d, c_start = s, c_persistedAt = lastPersistedAt w,
              c_wasIncognito = lastTabIncognito w \<rparr>"
  let ?w1 = "w\<lparr> lastDomain := None, lastStartTimestamp := None, lastPersistedAt := None,
         lastTabId := None, lastTabIncognito := False, lastTrackedWindowId := None,
         pendingWrite := Some ?c \<rparr>"
  let ?w3 = "settle now key ?c ?w1"
  let ?persisted = "shouldTrack d (excludeDomains (getSettings (stored_settings w)))
                          \<and> (keepIncognitoData (getSettings (stored_settings w))
                               \<or> \<not> lastTabIncognito w)"
  have first: "stopTracking w = (Some ?c, ?w1)"
    using a by (simp add: stopTracking_fresh)
  have second: "stopTracking ?w1 = (None, ?w1)"
    by (rule stopTracking_no_session) simp
  have "endSession_run stop_again now key ?c ?w1 = endSession_persist now key ?c ?w1"
    by (rule endSession_run_stop_again) simp
  then have among: "settle_among stop_again now key ?c ?w1 = ?w3"
    by (simp add: settle_among_def settle_def)
  have mem3: "lastDomain ?w3 = None"
    by (simp add: settle_def endSession_persist_eq Let_def)
  have third: "stopTracking ?w3 = (None, ?w3)"
    by (rule stopTracking_no_session) (simp add: mem3)
  have pw3: "pendingWrite ?w3 = None" by (simp add: settle_def)
  have days3: "stored_days ?w3 = stored_days (endSession_persist now key ?c w)"
    unfolding settle_stored_days by (rule endSession_persist_days_cong) simp_all
  have tl: "?persisted \<Longrightarrow>
       timeline (getDayData (stored_days ?w3) key)
          = timeline (getDayData (stored_days w) key) @ [\<lparr> b_start = s, b_end = now, b_domain = d \<rparr>]
       \<and> (\<forall>k. k \<noteq> key \<longrightarrow> timeline (getDayData (stored_days ?w3) k)
                             = timeline (getDayData (stored_days w) k))"
    unfolding days3
    using endSession_persist_timeline [where c = ?c and w = w and now = now and key = key]
    by simp
  have tot: "?persisted \<Longrightarrow>
       domains (getDayData (stored_days w) key) d \<noteq> None \<or> \<not> inherited d \<Longrightarrow>
       domain_ms (getDayData (stored_days ?w3) key) d
           = domain_ms (getDayData (stored_days w) key) d
             + max 0 (roundMs_int (now - (case lastPersistedAt w of None \<Rightarrow> s | Some t \<Rightarrow> t))
                                 (timeGranularityMs (getSettings (stored_settings w))))"
    unfolding days3
    using endSession_persist_total [where c = ?c and w = w and now = now and key = key]
    by (simp cong: option.case_cong)
  have no: "\<not> ?persisted \<Longrightarrow> stored_days ?w3 = stored_days w"
    unfolding days3
    using endSession_persist_discard [where c = ?c and w = w and now = now and key = key]
    by auto
  show "let c = ?c; w1 = snd (stopTracking w); w2 = snd (stopTracking w1);
             w3 = settle_among stop_again now key c w2;
             persisted = ?persisted;
             increment = roundMs_int (now - (case lastPersistedAt w of None \<Rightarrow> s | Some t \<Rightarrow> t))
                                     (timeGranularityMs (getSettings (stored_settings w)))
         in fst (stopTracking w) = Some c \<and> pendingWrite w1 = Some c
          \<and> lastDomain w1 = None \<and> lastStartTimestamp w1 = None
          \<and> stored_days w1 = stored_days w
          \<and> fst (stopTracking w1) = None \<and> w2 = w1
          \<and> w3 = settle now key c w1
          \<and> (persisted \<longrightarrow>
                timeline (getDayData (stored_days w3) key)
                  = timeline (getDayData (stored_days w) key)
                      @ [\<lparr> b_start = s, b_end = now, b_domain = d \<rparr>]
              \<and> (\<forall>k. k \<noteq> key \<longrightarrow> timeline (getDayData (stored_days w3) k)
                                     = timeline (getDayData (stored_days w) k))
              \<and> (domains (getDayData (stored_days w) key) d \<noteq> None \<or> \<not> inherited d \<longrightarrow>
                    domain_ms (getDayData (stored_days w3) key) d
                      = domain_ms (getDayData (stored_days w) key) d
                          + (if increment > 0 then increment else 0)))
          \<and> (\<not> persisted \<longrightarrow> stored_days w3 = stored_days w)
          \<and> pendingWrite w3 = None \<and> stopTracking w3 = (None, w3)"
    unfolding Let_def first second snd_conv fst_conv among
    using tl tot no pw3 third by (simp add: max_def)
qed

theorem stopTracking_idempotent_coalescing_witness:
  "stopTracking idle_state = (None, idle_state)
   \<and> stopTracking overlapping_session
       = (Some \<lparr> c_domain = ''github.com'', c_start = 0, c_persistedAt = Some 0,
                  c_wasIncognito = False \<rparr>, overlapping_session)
   \<and> stopTracking (snd (stopTracking github_session)) = (None, snd (stopTracking github_session))
   \<and> timeline (getDayData (stored_days
        (settle_among stop_again 90500 ''2025-02-13''
           \<lparr> c_domain = ''github.com'', c_start = 0, c_persistedAt = Some 0, c_wasIncognito = False \<rparr>
           (snd (stopTracking (snd (stopTracking github_session)))))) ''2025-02-13'')
       = [\<lparr> b_start = 0, b_end = 90500, b_domain = ''github.com'' \<rparr>]
   \<and> domain_ms (getDayData (stored_days
        (settle_among stop_again 90500 ''2025-02-13''
           \<lparr> c_domain = ''github.com'', c_start = 0, c_persistedAt = Some 0, c_wasIncognito = False \<rparr>
           (snd (stopTracking (snd (stopTracking github_session)))))) ''2025-02-13'') ''github.com''
       = 90000"
proof -
  have i: "lastDomain idle_state = None \<or> lastStartTimestamp idle_state = None"
    by (simp add: idle_state_def)
  have o: "lastDomain overlapping_session = Some ''github.com''
      \<and> lastStartTimestamp overlapping_session = Some 2000
      \<and> pendingWrite overlapping_session
          = Some \<lparr> c_domain = ''github.com'', c_start = 0, c_persistedAt = Some 0,
                   c_wasIncognito = False \<rparr>"
    by (simp add: overlapping_session_eq idle_state_def)
  have g: "lastDomain github_session = Some ''github.com''
      \<and> lastStartTimestamp github_session = Some 0 \<and> pendingWrite github_session = None"
    "lastPersistedAt github_session = Some 0" "\<not> lastTabIncognito github_session"
    "shouldTrack ''github.com'' (excludeDomains (getSettings (stored_settings github_session)))"
    "timeGranularityMs (getSettings (stored_settings github_session)) = 1000"
    "timeline (getDayData (stored_days github_session) ''2025-02-13'') = []"
    "domain_ms (getDayData (stored_days github_session) ''2025-02-13'') ''github.com'' = 0"
    by (simp_all add: github_session_eq idle_state_def default_settings shouldTrack_def
          getDayData_def domain_ms_def)
  have c1: "stopTracking idle_state = (None, idle_state)"
    using stopTracking_idempotent_coalescing [where w = idle_state] i by blast
  have c2: "stopTracking overlapping_session
       = (Some \<lparr> c_domain = ''github.com'', c_start = 0, c_persistedAt = Some 0,
                  c_wasIncognito = False \<rparr>, overlapping_session)"
    using stopTracking_idempotent_coalescing [where w = overlapping_session
            and d = "''github.com''" and s = 2000
            and p = "\<lparr> c_domain = ''github.com'', c_start = 0, c_persistedAt = Some 0,
                       c_wasIncognito = False \<rparr>"] o
    by blast
  have c3: "stopTracking (snd (stopTracking github_session)) = (None, snd (stopTracking github_session))
   \<and> timeline (getDayData (stored_days
        (settle_among stop_again 90500 ''2025-02-13''
           \<lparr> c_domain = ''github.com'', c_start = 0, c_persistedAt = Some 0, c_wasIncognito = False \<rparr>
           (snd (stopTracking (snd (stopTracking github_session)))))) ''2025-02-13'')
       = [\<lparr> b_start = 0, b_end = 90500, b_domain = ''github.com'' \<rparr>]
   \<and> domain_ms (getDayData (stored_days
        (settle_among stop_again 90500 ''2025-02-13''
           \<lparr> c_domain = ''github.com'', c_start = 0, c_persistedAt = Some 0, c_wasIncognito = False \<rparr>
           (snd (stopTracking (snd (stopTracking github_session)))))) ''2025-02-13'') ''github.com''
       = 90000"
    using stopTracking_idempotent_coalescing [where w = github_session
            and d = "''github.com''" and s = 0 and now = 90500 and key = "''2025-02-13''",
            THEN conjunct2, THEN conjunct2] g
    by (clarsimp simp: Let_def roundMs_int_div prod_eq_iff)
  show ?thesis using c1 c2 c3 by blast
qed

text \<open>
  The claim as first stated has a second call, made while the first stop is pending,
  return the same pending operation. It returns \<^verbatim>\<open>null\<close>: the first call has cleared the
  session in memory, and \<^verbatim>\<open>stopTracking\<close> tests for a session before it looks at
  \<^verbatim>\<open>pendingWrite\<close>.
\<close>

theorem second_stop_returns_null_counterexample:
  "lastDomain github_session = Some ''github.com''
   \<and> pendingWrite github_session = None
   \<and> fst (stopTracking github_session)
       = Some \<lparr> c_domain = ''github.com'', c_start = 0, c_persistedAt = Some 0,
                c_wasIncognito = False \<rparr>
   \<and> pendingWrite (snd (stopTracking github_session))
       = Some \<lparr> c_domain = ''github.com'', c_start = 0, c_persistedAt = Some 0,
                c_wasIncognito = False \<rparr>
   \<and> fst (stopTracking (snd (stopTracking github_session))) = None
   \<and> fst (stopTracking (snd (stopTracking github_session)))
       \<noteq> pendingWrite (snd (stopTracking github_session))"
  by (simp add: github_session_eq idle_state_def stopTracking_def endSession_claim_def
        session_locals_def)

text \<open>
  Claim C5, as amended. For an active session and a flush that runs with no other
  handler between its steps: if the domain is no longer trackable, the flush clears the
  session and the live indicator and writes no day data; if the domain is trackable but
  the session is incognito while \<^verbatim>\<open>keepIncognitoData\<close> is off, the flush changes nothing
  at all (the session stays in memory). In both cases the flush persists nothing, and a
  stop called with no earlier stop pending (\<^verbatim>\<open>pendingWrite\<close> is \<^verbatim>\<open>null\<close>) persists nothing
  and clears the session in memory. Called while an earlier stop is pending, the stop
  returns that earlier operation and awaits it; the session is neither ended nor
  discarded and stays in memory.
\<close>

theorem untrackable_or_private_session_discarded:
  assumes "lastDomain w = Some d" and "lastStartTimestamp w = Some s"
  shows "let excl = excludeDomains (getSettings (stored_settings w));
             keep = keepIncognitoData (getSettings (stored_settings w));
             w' = persistRunningTotal now key w;
             w'' = stopTracking_await now key w
         in (\<not> shouldTrack d excl \<longrightarrow>
               w' = w\<lparr> lastDomain := None, lastStartTimestamp := None, lastPersistedAt := None,
                       lastTabId := None, currentSession := None \<rparr>)
          \<and> (shouldTrack d excl \<and> \<not> keep \<and> lastTabIncognito w \<longrightarrow> w' = w)
          \<and> (\<not> shouldTrack d excl \<or> (\<not> keep \<and> lastTabIncognito w) \<longrightarrow>
               stored_days w' = stored_days w
             \<and> (pendingWrite w = None \<longrightarrow>
                   stored_days w'' = stored_days w \<and> lastDomain w'' = None
                 \<and> lastStartTimestamp w'' = None \<and> lastPersistedAt w'' = None)
             \<and> (\<forall>p. pendingWrite w = Some p \<longrightarrow>
                   stopTracking w = (Some p, w) \<and> w'' = settle now key p w
                 \<and> lastDomain w'' = Some d \<and> lastStartTimestamp w'' = Some s))"
proof -
  let ?c = "\<lparr> c_domain = d, c_start = s, c_persistedAt = lastPersistedAt w,
              c_wasIncognito = lastTabIncognito w \<rparr>"
  let ?w1 = "snd (stopTracking w)"
  have flush: "\<not> shouldTrack d (excludeDomains (getSettings (stored_settings w)))
       \<or> (\<not> keepIncognitoData (getSettings (stored_settings w)) \<and> lastTabIncognito w)
     \<Longrightarrow> stored_days (persistRunningTotal now key w) = stored_days w"
    using assms by (auto simp: persistRunningTotal_eq Let_def)
  have stop: "stored_days (stopTracking_await now key w) = stored_days w
       \<and> lastDomain (stopTracking_await now key w) = None
       \<and> lastStartTimestamp (stopTracking_await now key w) = None
       \<and> lastPersistedAt (stopTracking_await now key w) = None"
    if bad: "\<not> shouldTrack d (excludeDomains (getSettings (stored_settings w)))
       \<or> (\<not> keepIncognitoData (getSettings (stored_settings w)) \<and> lastTabIncognito w)"
      and pw: "pendingWrite w = None"
  proof -
    have eq: "stopTracking_await now key w = settle now key ?c ?w1"
      using assms pw by (rule stopTracking_await_fresh)
    have w1: "?w1 = w\<lparr> lastDomain := None, lastStartTimestamp := None, lastPersistedAt := None,
         lastTabId := None, lastTabIncognito := False, lastTrackedWindowId := None,
         pendingWrite := Some ?c \<rparr>"
      using assms pw by (simp add: stopTracking_fresh)
    have "\<not> shouldTrack (c_domain ?c) (excludeDomains (getSettings (stored_settings ?w1)))
       \<or> (\<not> keepIncognitoData (getSettings (stored_settings ?w1)) \<and> c_wasIncognito ?c)"
      using bad by (simp add: w1)
    then have "endSession_persist now key ?c ?w1 = ?w1
        \<or> endSession_persist now key ?c ?w1 = ?w1\<lparr> pendingWrite := None \<rparr>"
      by (rule endSession_persist_discard)
    then show ?thesis
      unfolding eq settle_def by (auto simp: w1)
  qed
  have pending: "stopTracking w = (Some p, w) \<and> stopTracking_await now key w = settle now key p w
       \<and> lastDomain (stopTracking_await now key w) = Some d
       \<and> lastStartTimestamp (stopTracking_await now key w) = Some s"
    if pw: "pendingWrite w = Some p" for p
  proof -
    have st: "stopTracking w = (Some p, w)"
      using assms pw by (rule stopTracking_pending)
    then have eq: "stopTracking_await now key w = settle now key p w"
      by (simp add: stopTracking_await_def)
    have "lastDomain (settle now key p w) = Some d \<and> lastStartTimestamp (settle now key p w) = Some s"
      using assms by (simp add: settle_def endSession_persist_eq Let_def)
    with st eq show ?thesis by simp
  qed
  have clear: "\<not> shouldTrack d (excludeDomains (getSettings (stored_settings w))) \<Longrightarrow>
      persistRunningTotal now key w
        = w\<lparr> lastDomain := None, lastStartTimestamp := None, lastPersistedAt := None,
             lastTabId := None, currentSession := None \<rparr>"
    using assms by (simp add: persistRunningTotal_eq Let_def)
  have keep: "shouldTrack d (excludeDomains (getSettings (stored_settings w))) \<Longrightarrow>
      \<not> keepIncognitoData (getSettings (stored_settings w)) \<Longrightarrow> lastTabIncognito w \<Longrightarrow>
      persistRunningTotal now key w = w"
    using assms by (simp add: persistRunningTotal_eq Let_def)
  show ?thesis
    unfolding Let_def using flush stop pending clear keep by blast
qed

theorem untrackable_or_private_session_discarded_witness:
  "persistRunningTotal 30500 ''2025-02-13'' (exclude_github github_session)
     = (exclude_github github_session)
         \<lparr> lastDomain := None, lastStartTimestamp := None, lastPersistedAt := None,
           lastTabId := None, currentSession := None \<rparr>
   \<and> persistRunningTotal 30500 ''2025-02-13'' incognito_session = incognito_session
   \<and> stored_days (stopTracking_await 30500 ''2025-02-13'' (exclude_github github_session))
       = Map.empty
   \<and> stored_days (stopTracking_await 30500 ''2025-02-13'' incognito_session) = Map.empty
   \<and> lastDomain (stopTracking_await 30500 ''2025-02-13'' incognito_session) = None
   \<and> stopTracking (exclude_github overlapping_session)
       = (Some \<lparr> c_domain = ''github.com'', c_start = 0, c_persistedAt = Some 0,
                  c_wasIncognito = False \<rparr>, exclude_github overlapping_session)
   \<and> lastDomain (stopTracking_await 30500 ''2025-02-13'' (exclude_github overlapping_session))
       = Some ''github.com''"
proof -
  have g: "lastDomain (exclude_github github_session) = Some ''github.com''"
    "lastStartTimestamp (exclude_github github_session) = Some 0"
    "\<not> shouldTrack ''github.com''
         (excludeDomains (getSettings (stored_settings (exclude_github github_session))))"
    "pendingWrite (exclude_github github_session) = None"
    "stored_days (exclude_github github_session) = Map.empty"
    by (simp_all add: exclude_github_def github_session_eq idle_state_def excluding_settings
          shouldTrack_def)
  have i: "lastDomain incognito_session = Some ''github.com''"
    "lastStartTimestamp incognito_session = Some 0"
    "shouldTrack ''github.com'' (excludeDomains (getSettings (stored_settings incognito_session)))"
    "\<not> keepIncognitoData (getSettings (stored_settings incognito_session))"
    "lastTabIncognito incognito_session"
    "pendingWrite incognito_session = None"
    "stored_days incognito_session = Map.empty"
    by (simp_all add: incognito_session_eq idle_state_def default_settings shouldTrack_def)
  have o: "lastDomain (exclude_github overlapping_session) = Some ''github.com''"
    "lastStartTimestamp (exclude_github overlapping_session) = Some 2000"
    "\<not> shouldTrack ''github.com''
         (excludeDomains (getSettings (stored_settings (exclude_github overlapping_session))))"
    "pendingWrite (exclude_github overlapping_session)
       = Some \<lparr> c_domain = ''github.com'', c_start = 0, c_persistedAt = Some 0,
                c_wasIncognito = False \<rparr>"
    by (simp_all add: exclude_github_def overlapping_session_eq idle_state_def
          excluding_settings shouldTrack_def)
  note tg = untrackable_or_private_session_discarded [OF g(1) g(2), of 30500 "''2025-02-13''",
      unfolded Let_def]
  note ti = untrackable_or_private_session_discarded [OF i(1) i(2), of 30500 "''2025-02-13''",
      unfolded Let_def]
  note to = untrackable_or_private_session_discarded [OF o(1) o(2), of 30500 "''2025-02-13''",
      unfolded Let_def]
  have c1: "persistRunningTotal 30500 ''2025-02-13'' (exclude_github github_session)
     = (exclude_github github_session)
         \<lparr> lastDomain := None, lastStartTimestamp := None, lastPersistedAt := None,
           lastTabId := None, currentSession := None \<rparr>"
    using tg g(3) by blast
  have c2: "persistRunningTotal 30500 ''2025-02-13'' incognito_session = incognito_session"
    using ti i(3-5) by blast
  have c3: "stored_days (stopTracking_await 30500 ''2025-02-13'' (exclude_github github_session))
       = Map.empty"
    using tg g(3,4) unfolding g(5) by blast
  have c4: "stored_days (stopTracking_await 30500 ''2025-02-13'' incognito_session) = Map.empty
     \<and> lastDomain (stopTracking_await 30500 ''2025-02-13'' incognito_session) = None"
    using ti i(4-6) unfolding i(7) by blast
  have c5: "stopTracking (exclude_github overlapping_session)
       = (Some \<lparr> c_domain = ''github.com'', c_start = 0, c_persistedAt = Some 0,
                  c_wasIncognito = False \<rparr>, exclude_github overlapping_session)
   \<and> lastDomain (stopTracking_await 30500 ''2025-02-13'' (exclude_github overlapping_session))
       = Some ''github.com''"
    using to o(3,4) by blast
  show ?thesis using c1 c2 c3 c4 c5 by blast
qed

text \<open>
  The claim as first stated has the next flush clear the session in the privacy case
  too. It does not: the flush of an incognito session with \<^verbatim>\<open>keepIncognitoData\<close> off
  returns before touching the globals.
\<close>

theorem private_session_survives_flush_counterexample:
  "lastDomain incognito_session = Some ''github.com''
   \<and> lastStartTimestamp incognito_session = Some 0
   \<and> lastTabIncognito incognito_session
   \<and> \<not> keepIncognitoData (getSettings (stored_settings incognito_session))
   \<and> lastDomain (persistRunningTotal 30500 ''2025-02-13'' incognito_session) = Some ''github.com''
   \<and> lastStartTimestamp (persistRunningTotal 30500 ''2025-02-13'' incognito_session) = Some 0"
  by (simp add: incognito_session_eq idle_state_def default_settings shouldTrack_def
        persistRunningTotal_eq)

text \<open>
  Claim C7, evaluated on the code. A successful start writes the live indicator. A stop
  of a session whose domain has meanwhile been excluded, or of an incognito session with
  \<^verbatim>\<open>keepIncognitoData\<close> off, completes with the session cleared in memory and the
  indicator still in storage; the periodic flush, on the same excluded session, does
  clear it.
\<close>

theorem stop_of_excluded_session_leaves_currentSession:
  "currentSession github_session = Some (''github.com'', 0)
   \<and> lastDomain (stopTracking_await 60000 ''2025-02-13'' (exclude_github github_session)) = None
   \<and> pendingWrite (stopTracking_await 60000 ''2025-02-13'' (exclude_github github_session)) = None
   \<and> currentSession (stopTracking_await 60000 ''2025-02-13'' (exclude_github github_session))
       = Some (''github.com'', 0)
   \<and> currentSession (persistRunningTotal 60000 ''2025-02-13'' (exclude_github github_session))
       = None
   \<and> lastDomain (stopTracking_await 60000 ''2025-02-13'' incognito_session) = None
   \<and> currentSession (stopTracking_await 60000 ''2025-02-13'' incognito_session)
       = Some (''github.com'', 0)"
  by (simp add: exclude_github_def github_session_eq incognito_session_eq idle_state_def
        excluding_settings default_settings shouldTrack_def stopTracking_await_def
        stopTracking_def endSession_claim_def session_locals_def settle_def
        endSession_persist_eq persistRunningTotal_eq)

subsection \<open>Recovery from the durable marker\<close>

lemma interrupted_session_eq:
  "interrupted_session =
     idle_state\<lparr> stored_days :=
         [''2025-02-13'' \<mapsto> \<lparr> domains = [''github.com'' \<mapsto> 30000], timeline = [] \<rparr>],
       currentSession := Some (''github.com'', 0),
       stored_pendingSession :=
         Some \<lparr> p_domain = Some ''github.com'', p_start = Some 0, p_persistedAt = Some 0,
                p_windowId = Some 10, p_wasIncognito = Some False \<rparr> \<rparr>"
  by (simp add: interrupted_session_def restarted_def github_session_eq idle_state_def
        persistRunningTotal_eq default_settings shouldTrack_def roundMs_int_div day_defs)

text \<open>
  Claim C4, evaluated on the code. A \<^verbatim>\<open>github.com\<close> session started at 0 is flushed at
  30500, which adds 30000 to the total and moves \<^verbatim>\<open>lastPersistedAt\<close> in memory only: the
  marker in storage keeps the \<^verbatim>\<open>persistedAt\<close> written at the start. The service worker
  restarts, window 10 is closed, and \<^verbatim>\<open>handleActiveTab(3, 30)\<close> runs at 100000. The
  recovery runs \<^verbatim>\<open>endSession\<close> on the marker: the block it writes ends at 100000, the time
  of the recovery and not that of the last flush, and it adds the 100000 between the
  marker's \<^verbatim>\<open>persistedAt\<close> and the recovery, so the total is 130000 for a session of which
  at most 100000 have passed and 30000 were already counted.
\<close>

theorem recovery_counts_flushed_time_again:
  "lastDomain interrupted_session = None \<and> lastTabId interrupted_session = None
   \<and> stored_pendingSession interrupted_session =
       Some \<lparr> p_domain = Some ''github.com'', p_start = Some 0, p_persistedAt = Some 0,
              p_windowId = Some 10, p_wasIncognito = Some False \<rparr>
   \<and> \<not> windows_get browser_after_close 10
   \<and> lastPersistedAt (persistRunningTotal 30500 ''2025-02-13'' github_session) = Some 30500
   \<and> domain_ms (getDayData (stored_days interrupted_session) ''2025-02-13'') ''github.com'' = 30000
   \<and> timeline (getDayData (stored_days interrupted_session) ''2025-02-13'') = []
   \<and> timeline (getDayData (stored_days
        (handleActiveTab_recover browser_after_close 100000 ''2025-02-13'' 30 interrupted_session))
        ''2025-02-13'')
     = [\<lparr> b_start = 0, b_end = 100000, b_domain = ''github.com'' \<rparr>]
   \<and> domain_ms (getDayData (stored_days
        (handleActiveTab_recover browser_after_close 100000 ''2025-02-13'' 30 interrupted_session))
        ''2025-02-13'') ''github.com''
     = 130000
   \<and> timeline (getDayData (stored_days
        (handleActiveTab browser_after_close 100000 ''2025-02-13'' (Some 3) 30 interrupted_session))
        ''2025-02-13'')
     = [\<lparr> b_start = 0, b_end = 100000, b_domain = ''github.com'' \<rparr>]
   \<and> domain_ms (getDayData (stored_days
        (handleActiveTab browser_after_close 100000 ''2025-02-13'' (Some 3) 30 interrupted_session))
        ''2025-02-13'') ''github.com''
     = 130000
   \<and> stored_pendingSession
        (handleActiveTab browser_after_close 100000 ''2025-02-13'' (Some 3) 30 interrupted_session)
     = None"
  by (simp add: interrupted_session_eq github_session_eq idle_state_def persistRunningTotal_eq
        default_settings shouldTrack_def roundMs_int_div day_defs browser_after_close_def
        handleActiveTab_def handleActiveTab_recover_def handleActiveTab_window_def
        handleActiveTab_tab_def hostnameFromUrl_def URL_sample_def stopTracking_await_def
        stopTracking_def endSession_def endSession_claim_def session_locals_def
        recover_override_def endSession_persist_eq Let_def)

end
